theory Spec2Isabelle
  imports Complex_Main
begin

section \<open>The waterfall pipeline of \<^verbatim>\<open>main.py\<close>\<close>

text \<open>
  The program is one class, \<^verbatim>\<open>WaterfallApp\<close>, whose methods \<^verbatim>\<open>update_freq_axis\<close>,
  \<^verbatim>\<open>apply_settings\<close>, \<^verbatim>\<open>update_once\<close> and \<^verbatim>\<open>closeEvent\<close> mutate the object's fields.
  The embedding passes the object around as a record and returns it updated, together
  with the exception that left the method, if any.

  Numbers: values are \<^typ>\<open>real\<close> and \<^typ>\<open>complex\<close> numbers. The arithmetic of Python's
  floats and of numpy's double precision is taken as exact. The conversions to single
  precision that the source writes out, \<^verbatim>\<open>astype(np.float32)\<close> and
  \<^verbatim>\<open>astype(np.complex64)\<close>, round every value to the nearest \<^verbatim>\<open>float32\<close>, ties to the
  even significand. Overflow to infinity and not-a-number values are outside this model.
  An \<^verbatim>\<open>ndarray\<close> of one dimension is a list, the waterfall matrix is the list of its rows
  (row 0 first).
\<close>

subsection \<open>Exceptions\<close>

datatype error =
    ValueError          \<comment> \<open>numpy: shapes that cannot be broadcast, an FFT length below 1\<close>
  | IndexError          \<comment> \<open>numpy: index \<^verbatim>\<open>-1\<close> into an axis of size 0\<close>
  | ZeroDivisionError   \<comment> \<open>Python: float division by zero\<close>
  | DeviceError         \<comment> \<open>whatever \<^verbatim>\<open>read_samples\<close> raises when the device read fails\<close>

subsection \<open>The numpy operations that the methods call\<close>

text \<open>
  Rounding to \<^verbatim>\<open>float32\<close>: a significand of 24 bits, the least exponent -126 (below
  it the values are subnormal, with the spacing of that exponent), round to nearest,
  ties to even.
\<close>

definition round_half_even :: "real \<Rightarrow> int" where
  "round_half_even x =
     (let f = \<lfloor>x\<rfloor>; d = x - of_int f
      in if d < 1 / 2 then f else if 1 / 2 < d then f + 1 else if even f then f else f + 1)"

definition float32_exponent :: "real \<Rightarrow> int" where
  "float32_exponent x = max \<lfloor>log 2 \<bar>x\<bar>\<rfloor> (- 126)"

definition float32 :: "real \<Rightarrow> real" where
  "float32 x =
     (if x = 0 then 0
      else let ulp = 2 powi (float32_exponent x - 23)
           in of_int (round_half_even (x / ulp)) * ulp)"

definition astype_complex64 :: "complex list \<Rightarrow> complex list" where
  "astype_complex64 xs = map (\<lambda>z. Complex (float32 (Re z)) (float32 (Im z))) xs"

definition astype_float32 :: "real list \<Rightarrow> real list" where
  "astype_float32 xs = map float32 xs"

text \<open>
  \<^verbatim>\<open>np.hanning(M)\<close>: empty below 1, \<^verbatim>\<open>[1.0]\<close> for 1, and otherwise
  \<^verbatim>\<open>0.5 + 0.5*cos(pi*n/(M-1))\<close> for \<^verbatim>\<open>n = arange(1-M, M, 2)\<close>.
\<close>

definition np_hanning :: "nat \<Rightarrow> real list" where
  "np_hanning M =
     (if M < 1 then []
      else if M = 1 then [1]
      else map (\<lambda>k. 0.5 + 0.5 * cos (pi * (1 - real M + 2 * real k) / (real M - 1))) [0..<M])"

text \<open>
  \<^verbatim>\<open>np.full((rows, cols), v, dtype=np.float32)\<close>; the source fills with -120.0, which is
  a \<^verbatim>\<open>float32\<close> value.
\<close>

definition np_full :: "nat \<Rightarrow> nat \<Rightarrow> real \<Rightarrow> real list list" where
  "np_full r c v = replicate r (replicate c v)"

text \<open>
  \<^verbatim>\<open>np.mean\<close>. On an empty array numpy warns and returns not-a-number; the source then
  subtracts it from the (empty) array, so the value plays no role there.
\<close>

definition np_mean :: "complex list \<Rightarrow> complex" where
  "np_mean xs = sum_list xs / of_nat (length xs)"

text \<open>
  Elementwise product of two one-dimensional arrays with numpy's broadcasting: equal
  lengths multiply pairwise, an array of length 1 is stretched over the other one, any
  other pair of lengths raises \<^verbatim>\<open>ValueError\<close>.
\<close>

definition np_multiply :: "complex list \<Rightarrow> complex list \<Rightarrow> error + complex list" where
  "np_multiply xs ys =
     (if length xs = length ys then Inr (map2 (*) xs ys)
      else if length xs = 1 then Inr (map (\<lambda>y. hd xs * y) ys)
      else if length ys = 1 then Inr (map (\<lambda>x. x * hd ys) xs)
      else Inl ValueError)"

text \<open>
  \<^verbatim>\<open>np.fft.fft(x, n=n)\<close>: \<^verbatim>\<open>ValueError\<close> for \<^verbatim>\<open>n < 1\<close>; the input is cut to its first \<open>n\<close>
  entries or padded with zeros to length \<open>n\<close>, then transformed:
  \<open>X\<^sub>k = \<Sum>\<^sub>m x\<^sub>m exp(-2\<pi>i m k / n)\<close>.
\<close>

definition dft :: "complex list \<Rightarrow> complex list" where
  "dft x =
     map (\<lambda>k. \<Sum>m<length x. x ! m * cis (- 2 * pi * real m * real k / real (length x)))
       [0..<length x]"

definition np_fft :: "complex list \<Rightarrow> nat \<Rightarrow> error + complex list" where
  "np_fft x n =
     (if n < 1 then Inl ValueError
      else Inr (dft (take n x @ replicate (n - length x) 0)))"

text \<open>\<^verbatim>\<open>np.fft.fftshift\<close> on one axis: \<^verbatim>\<open>roll(x, len(x) // 2)\<close>.\<close>

definition fftshift :: "'a list \<Rightarrow> 'a list" where
  "fftshift x = (let n = length x; s = n div 2 in drop (n - s) x @ take (n - s) x)"

text \<open>
  \<^verbatim>\<open>np.fft.fftfreq(n, d)\<close>: \<^verbatim>\<open>val = 1.0 / (n * d)\<close> (a Python float division, which raises on
  zero), the indices \<^verbatim>\<open>0 .. (n-1)//2\<close> followed by \<^verbatim>\<open>-(n//2) .. -1\<close>, each times \<^verbatim>\<open>val\<close>.
\<close>

definition fftfreq :: "nat \<Rightarrow> real \<Rightarrow> error + real list" where
  "fftfreq n d =
     (if real n * d = 0 then Inl ZeroDivisionError
      else let val = 1 / (real n * d); N = (n - 1) div 2 + 1
           in Inr (map (\<lambda>i. real_of_int i * val)
                     (map int [0..<N] @ map (\<lambda>j. int j - int (n div 2)) [0..<n - N])))"

text \<open>
  \<^verbatim>\<open>np.percentile(a, q)\<close> with the default linear method: the array sorted, the virtual
  index \<^verbatim>\<open>q/100 * (n-1)\<close>, and linear interpolation between the two entries around it.
  The source calls it on the result of an FFT of length at least 1, never on an empty
  array (where numpy gives not-a-number).
\<close>

definition np_percentile :: "real list \<Rightarrow> real \<Rightarrow> real" where
  "np_percentile a q =
     (let xs = sort a; n = length xs;
          h = q / 100 * (real n - 1);
          lo = nat \<lfloor>h\<rfloor>; hi = min (lo + 1) (n - 1);
          g = h - real lo
      in xs ! lo + (xs ! hi - xs ! lo) * g)"

text \<open>\<^verbatim>\<open>np.clip(a, lo, hi)\<close> is \<^verbatim>\<open>minimum(maximum(a, lo), hi)\<close>.\<close>

definition np_clip :: "real list \<Rightarrow> real \<Rightarrow> real \<Rightarrow> real list" where
  "np_clip a lo hi = map (\<lambda>v. min (max v lo) hi) a"

subsection \<open>The spectral transform of \<^verbatim>\<open>update_once\<close>\<close>

text \<open>
  Lines 175 to 186 of \<^verbatim>\<open>update_once\<close>, from the block that \<^verbatim>\<open>read_samples\<close> returned to
  \<^verbatim>\<open>power_db\<close>: conversion to \<^verbatim>\<open>complex64\<close>, removal of the mean, the window, the shifted
  FFT of length \<^verbatim>\<open>nfft\<close>, magnitude, and \<^verbatim>\<open>20 * log10(mag + 1e-12)\<close>.
\<close>

definition epsilon :: real where
  "epsilon = 1 / 10 ^ 12"

definition power_spectrum :: "real list \<Rightarrow> nat \<Rightarrow> complex list \<Rightarrow> error + real list" where
  "power_spectrum w n block =
     (let iq = astype_complex64 block;
          iq = map (\<lambda>z. z - np_mean iq) iq
      in case np_multiply iq (map complex_of_real w) of
           Inl e \<Rightarrow> Inl e
         | Inr x \<Rightarrow>
             (case np_fft x n of
                Inl e \<Rightarrow> Inl e
              | Inr F \<Rightarrow>
                  let X = fftshift F;
                      mag = map cmod X
                  in Inr (map (\<lambda>m. 20 * log 10 (m + epsilon)) mag)))"

subsection \<open>The object\<close>

text \<open>
  \<^verbatim>\<open>self.sdr\<close> is the device object of the \<^verbatim>\<open>rtlsdr\<close> package. The model keeps the three
  properties that the program assigns and reads back, and every assignment succeeds. The
  gain is the string \<^verbatim>\<open>"auto"\<close> or a float.
\<close>

datatype gain_value = GainAuto | GainDb real

record rtlsdr =
  center_freq :: real
  sample_rate :: real
  gain :: gain_value

record app =
  center_freq_hz :: real
  sample_rate_hz :: real
  gain_db :: gain_value
  nfft :: nat
  fps :: int
  waterfall_rows :: nat
  dynamic_range_db :: real
  sdr :: rtlsdr
  window :: "real list"
  waterfall :: "real list list"
  db_max_smooth :: "real option"          \<comment> \<open>\<^verbatim>\<open>self._db_max_smooth\<close>, \<^verbatim>\<open>None\<close> at first\<close>
  freqs_mhz :: "real list"
  img_rect :: "real \<times> real \<times> real \<times> real"   \<comment> \<open>the \<^verbatim>\<open>QRectF\<close> given to \<^verbatim>\<open>img.setRect\<close>\<close>
  timer_interval :: "int option"          \<comment> \<open>milliseconds, \<^verbatim>\<open>None\<close> when the timer is stopped\<close>
  closing :: bool

text \<open>
  The widgets that \<^verbatim>\<open>apply_settings\<close> reads. The FFT box is a combo box with the four
  items \<^verbatim>\<open>"1024"\<close>, \<^verbatim>\<open>"2048"\<close>, \<^verbatim>\<open>"4096"\<close>, \<^verbatim>\<open>"8192"\<close>; \<^verbatim>\<open>int(currentText())\<close> is one of
  the four numbers. The spin boxes keep their values inside the ranges set in
  \<^verbatim>\<open>__init__\<close>.
\<close>

datatype fft_item = FFT_1024 | FFT_2048 | FFT_4096 | FFT_8192

fun fft_value :: "fft_item \<Rightarrow> nat" where
  "fft_value FFT_1024 = 1024"
| "fft_value FFT_2048 = 2048"
| "fft_value FFT_4096 = 4096"
| "fft_value FFT_8192 = 8192"

record ui =
  freq_input :: real       \<comment> \<open>MHz\<close>
  sr_input :: real         \<comment> \<open>MS/s\<close>
  gain_input :: "nat list"  \<comment> \<open>the text of the line edit, as code points\<close>
  fft_input :: fft_item
  fps_input :: int

definition ui_in_range :: "ui \<Rightarrow> bool" where
  "ui_in_range u \<longleftrightarrow>
     1 \<le> freq_input u \<and> freq_input u \<le> 2000 \<and>
     0.25 \<le> sr_input u \<and> sr_input u \<le> 3.2 \<and>
     10 \<le> fps_input u \<and> fps_input u \<le> 60"

subsection \<open>Python's string and number helpers\<close>

text \<open>
  A Python \<^verbatim>\<open>str\<close> is the list of its Unicode code points; \<open>text_of\<close> writes an ASCII
  literal. \<^verbatim>\<open>str.strip()\<close> removes from both ends the code points that Python counts
  as whitespace: U+0009 to U+000D, U+001C to U+0020, U+0085, U+00A0, U+1680, U+2000 to
  U+200A, U+2028, U+2029, U+202F, U+205F and U+3000.
\<close>

definition text_of :: "string \<Rightarrow> nat list" where
  "text_of t = map of_char t"

definition is_space :: "nat \<Rightarrow> bool" where
  "is_space k \<longleftrightarrow>
     (9 \<le> k \<and> k \<le> 13) \<or> (28 \<le> k \<and> k \<le> 32) \<or> k = 133 \<or> k = 160 \<or> k = 5760 \<or>
     (8192 \<le> k \<and> k \<le> 8202) \<or> k = 8232 \<or> k = 8233 \<or> k = 8239 \<or> k = 8287 \<or>
     k = 12288"

definition py_strip :: "nat list \<Rightarrow> nat list" where
  "py_strip t = rev (dropWhile is_space (rev (dropWhile is_space t)))"

text \<open>
  \<^verbatim>\<open>str.lower()\<close> and \<^verbatim>\<open>float(text)\<close> are Python's own; the methods take them as a
  parameter, so that the theorems hold for the functions that Python has. \<open>None\<close>
  stands for the \<^verbatim>\<open>ValueError\<close> of \<^verbatim>\<open>float\<close>.
\<close>

record python =
  str_lower :: "nat list \<Rightarrow> nat list"
  py_float :: "nat list \<Rightarrow> real option"

text \<open>\<^verbatim>\<open>int(x)\<close> of a float truncates towards zero.\<close>

definition py_int :: "real \<Rightarrow> int" where
  "py_int x = (if 0 \<le> x then \<lfloor>x\<rfloor> else \<lceil>x\<rceil>)"

text \<open>
  The two functions on ASCII text, for evaluating the methods on concrete texts:
  \<^verbatim>\<open>lower\<close> sends the letters A to Z to a to z and keeps every other ASCII character;
  of \<^verbatim>\<open>float\<close> the fragment that reads a non-empty run of decimal digits and rejects
  every other text.
\<close>

definition ascii_lower :: "nat list \<Rightarrow> nat list" where
  "ascii_lower t = map (\<lambda>k. if 65 \<le> k \<and> k \<le> 90 then k + 32 else k) t"

definition float_digits :: "nat list \<Rightarrow> real option" where
  "float_digits t =
     (if t \<noteq> [] \<and> list_all (\<lambda>k. 48 \<le> k \<and> k \<le> 57) t
      then Some (real (foldl (\<lambda>a k. 10 * a + (k - 48)) 0 t))
      else None)"

definition ascii_python :: python where
  "ascii_python = \<lparr>str_lower = ascii_lower, py_float = float_digits\<rparr>"

subsection \<open>\<^verbatim>\<open>update_freq_axis\<close>\<close>

definition update_freq_axis :: "app \<Rightarrow> error option \<times> app" where
  "update_freq_axis s =
     (if sample_rate (sdr s) = 0 then (Some ZeroDivisionError, s)
      else case fftfreq (nfft s) (1 / sample_rate (sdr s)) of
             Inl e \<Rightarrow> (Some e, s)
           | Inr fr \<Rightarrow>
               let freqs = fftshift fr;
                   fm = map (\<lambda>f. (f + center_freq (sdr s)) / 10 ^ 6) freqs;
                   s1 = s\<lparr>freqs_mhz := fm\<rparr>
               in if fm = [] then (Some IndexError, s1)
                  else let x_min = hd fm; x_max = last fm
                       in (None, s1\<lparr>img_rect := (x_min, 0, x_max - x_min, real (waterfall_rows s1))\<rparr>))"

subsection \<open>\<^verbatim>\<open>apply_settings\<close>\<close>

text \<open>
  The first argument holds Python's \<^verbatim>\<open>lower\<close> and \<^verbatim>\<open>float\<close>. The result is the
  exception that left the method, if any, and the object as the method left it.
\<close>

definition set_gain :: "python \<Rightarrow> nat list \<Rightarrow> app \<Rightarrow> app" where
  "set_gain py txt s =
     (let gain_txt = str_lower py (py_strip txt)
      in if gain_txt = text_of ''auto'' then s\<lparr>sdr := (sdr s)\<lparr>gain := GainAuto\<rparr>\<rparr>
         else case py_float py gain_txt of
                Some g \<Rightarrow> s\<lparr>sdr := (sdr s)\<lparr>gain := GainDb g\<rparr>\<rparr>
              | None \<Rightarrow> s)"

definition set_nfft :: "nat \<Rightarrow> app \<Rightarrow> app" where
  "set_nfft new_nfft s =
     (if new_nfft \<noteq> nfft s
      then s\<lparr>nfft := new_nfft,
             window := astype_float32 (np_hanning new_nfft),
             waterfall := np_full (waterfall_rows s) new_nfft (- 120),
             db_max_smooth := None\<rparr>
      else s)"

definition apply_settings :: "python \<Rightarrow> ui \<Rightarrow> app \<Rightarrow> error option \<times> app" where
  "apply_settings py u s =
     (let s1 = s\<lparr>sdr := (sdr s)\<lparr>center_freq := freq_input u * 10 ^ 6,
                               sample_rate := sr_input u * 10 ^ 6\<rparr>\<rparr>;
          s2 = set_gain py (gain_input u) s1;
          s3 = set_nfft (fft_value (fft_input u)) s2;
          s4 = s3\<lparr>fps := fps_input u\<rparr>
      in if fps s4 = 0 then (Some ZeroDivisionError, s4)
         else update_freq_axis
                (s4\<lparr>timer_interval := Some (py_int (1000 / real_of_int (fps s4)))\<rparr>))"

subsection \<open>\<^verbatim>\<open>update_once\<close>\<close>

text \<open>
  Lines 189 to 198: the 99th percentile of \<^verbatim>\<open>power_db\<close>, the update of
  \<^verbatim>\<open>self._db_max_smooth\<close>, and the two bounds \<^verbatim>\<open>db_min\<close> and \<^verbatim>\<open>db_max\<close>.
\<close>

definition update_level :: "app \<Rightarrow> real list \<Rightarrow> app \<times> real \<times> real" where
  "update_level s power_db =
     (let new_db_max = np_percentile power_db 99;
          smooth = (case db_max_smooth s of
                      None \<Rightarrow> new_db_max
                    | Some m \<Rightarrow> 0.9 * m + 0.1 * new_db_max);
          s1 = s\<lparr>db_max_smooth := Some smooth\<rparr>;
          db_max = smooth;
          db_min = db_max - dynamic_range_db s1
      in (s1, db_min, db_max))"

text \<open>
  Lines 200 to 204 on the matrix: \<^verbatim>\<open>power_db\<close> is clipped, the rows move up by one
  (\<^verbatim>\<open>w[:-1, :] = w[1:, :]\<close>, which leaves a matrix without rows as it is), and the clipped
  array is assigned to the last row. That assignment raises \<^verbatim>\<open>IndexError\<close> when the
  matrix has no row, broadcasts an array of length 1 over the row, and raises
  \<^verbatim>\<open>ValueError\<close> for any other array whose length is not the row's. The rows have moved
  already when it raises.
\<close>

definition shift_rows :: "real list list \<Rightarrow> real list list" where
  "shift_rows w = (if w = [] then [] else tl w @ [last w])"

definition set_last_row :: "real list list \<Rightarrow> real list \<Rightarrow> error option \<times> real list list" where
  "set_last_row w p =
     (if w = [] then (Some IndexError, w)
      else if length p = length (last w) then (None, butlast w @ [p])
      else if length p = 1 then (None, butlast w @ [replicate (length (last w)) (hd p)])
      else (Some ValueError, w))"

definition scroll_push :: "real list list \<Rightarrow> real list \<Rightarrow> real \<Rightarrow> real \<Rightarrow> error option \<times> real list list" where
  "scroll_push w power_db db_min db_max =
     (let p = astype_float32 (np_clip power_db db_min db_max)
      in set_last_row (shift_rows w) p)"

text \<open>
  The whole method. The argument \<open>rd\<close> is what \<^verbatim>\<open>self.sdr.read_samples(self.nfft)\<close> does
  in this tick: it raises, or it returns a block. The call of \<^verbatim>\<open>img.setImage\<close> at the end
  hands the matrix to the display and changes no field.
\<close>

definition update_once :: "error + complex list \<Rightarrow> app \<Rightarrow> error option \<times> app" where
  "update_once rd s =
     (if closing s then (None, s)
      else case rd of
             Inl e \<Rightarrow> (Some e, s)
           | Inr block \<Rightarrow>
               (case power_spectrum (window s) (nfft s) block of
                  Inl e \<Rightarrow> (Some e, s)
                | Inr power_db \<Rightarrow>
                    (case update_level s power_db of
                       (s1, db_min, db_max) \<Rightarrow>
                         (case scroll_push (waterfall s1) power_db db_min db_max of
                            (r, w) \<Rightarrow> (r, s1\<lparr>waterfall := w\<rparr>)))))"

subsection \<open>\<^verbatim>\<open>closeEvent\<close> and \<^verbatim>\<open>__init__\<close>\<close>

definition closeEvent :: "app \<Rightarrow> app" where
  "closeEvent s = s\<lparr>closing := True, timer_interval := None\<rparr>"

text \<open>
  The object at the end of \<^verbatim>\<open>__init__\<close>: the defaults, the window and the matrix, then
  \<^verbatim>\<open>update_freq_axis()\<close>, then the timer at \<^verbatim>\<open>int(1000.0 / 15)\<close> milliseconds.
\<close>

definition init_fields :: app where
  "init_fields =
     \<lparr>center_freq_hz = 94900000, sample_rate_hz = 2400000, gain_db = GainAuto,
      nfft = 2048, fps = 15, waterfall_rows = 300, dynamic_range_db = 60,
      sdr = \<lparr>center_freq = 94900000, sample_rate = 2400000, gain = GainAuto\<rparr>,
      window = astype_float32 (np_hanning 2048),
      waterfall = np_full 300 2048 (- 120),
      db_max_smooth = None,
      freqs_mhz = [], img_rect = (0, 0, 0, 0), timer_interval = None, closing = False\<rparr>"

definition init :: app where
  "init = (snd (update_freq_axis init_fields))
            \<lparr>timer_interval := Some (py_int (1000 / 15)), closing := False\<rparr>"

text \<open>
  The objects that the program can hold between two calls: the one that \<^verbatim>\<open>__init__\<close>
  builds, and what the three slots make of such an object, whatever the widgets hold,
  whatever the device delivers and whether or not the slot raised.
\<close>

inductive reachable :: "app \<Rightarrow> bool" where
  reach_init: "reachable init"
| reach_apply: "reachable s \<Longrightarrow> ui_in_range u \<Longrightarrow> reachable (snd (apply_settings py u s))"
| reach_tick: "reachable s \<Longrightarrow> reachable (snd (update_once rd s))"
| reach_close: "reachable s \<Longrightarrow> reachable (closeEvent s)"

text \<open>
  The shapes agree: the window has \<^verbatim>\<open>nfft\<close> entries, the matrix has \<^verbatim>\<open>waterfall_rows\<close>
  rows, and every row has \<^verbatim>\<open>nfft\<close> entries.
\<close>

definition consistent :: "app \<Rightarrow> bool" where
  "consistent s \<longleftrightarrow>
     length (window s) = nfft s \<and>
     length (waterfall s) = waterfall_rows s \<and>
     (\<forall>row \<in> set (waterfall s). length row = nfft s)"

text \<open>
  Several pushes in a row, each a spectrum with the bounds of its tick; the first
  exception stops the sequence.
\<close>

fun push_all :: "real list list \<Rightarrow> (real list \<times> real \<times> real) list \<Rightarrow> error option \<times> real list list" where
  "push_all w [] = (None, w)"
| "push_all w ((p, lo, hi) # ps) =
     (case scroll_push w p lo hi of
        (None, w') \<Rightarrow> push_all w' ps
      | (Some e, w') \<Rightarrow> (Some e, w'))"

text \<open>The row that a push writes for a spectrum and its bounds.\<close>

definition clamped :: "real list \<times> real \<times> real \<Rightarrow> real list" where
  "clamped t = (case t of (p, lo, hi) \<Rightarrow> astype_float32 (np_clip p lo hi))"

text \<open>A filling of the widgets, for evaluating \<^verbatim>\<open>apply_settings\<close>.\<close>

definition ui_example :: ui where
  "ui_example = \<lparr>freq_input = 100, sr_input = 2, gain_input = text_of ''12 dB'',
                  fft_input = FFT_4096, fps_input = 20\<rparr>"

section \<open>Properties\<close>

subsection \<open>Rounding to single precision\<close>

lemma round_half_even_int [simp]: "round_half_even (of_int k) = k"
  by (simp add: round_half_even_def)

lemma round_half_even_numeral [simp]:
  "round_half_even (numeral n) = numeral n"
  "round_half_even (- numeral n) = - numeral n"
  "round_half_even 0 = 0"
  using round_half_even_int [of "numeral n"] round_half_even_int [of "- numeral n"]
    round_half_even_int [of 0]
  by simp_all

lemma round_half_even_bounds:
  "\<lfloor>x\<rfloor> \<le> round_half_even x" "round_half_even x \<le> \<lfloor>x\<rfloor> + 1"
  by (simp_all add: round_half_even_def Let_def)

lemma round_half_even_mono:
  assumes "x \<le> y"
  shows "round_half_even x \<le> round_half_even y"
proof (cases "\<lfloor>x\<rfloor> = \<lfloor>y\<rfloor>")
  case True
  then have "x - of_int \<lfloor>x\<rfloor> \<le> y - of_int \<lfloor>y\<rfloor>"
    using assms by simp
  then show ?thesis
    using True by (auto simp: round_half_even_def Let_def)
next
  case False
  then have lt: "\<lfloor>x\<rfloor> < \<lfloor>y\<rfloor>"
    using assms floor_mono [of x y] by linarith
  show ?thesis
  proof (cases "\<lfloor>x\<rfloor> + 1 = \<lfloor>y\<rfloor>")
    case False
    then have "\<lfloor>x\<rfloor> + 1 \<le> \<lfloor>y\<rfloor>"
      using lt by linarith
    then show ?thesis
      using round_half_even_bounds(2) [of x] round_half_even_bounds(1) [of y] by linarith
  next
    case True
    then show ?thesis
      using round_half_even_bounds(2) [of x] round_half_even_bounds(1) [of y] by linarith
  qed
qed

lemma float32_alt:
  "x \<noteq> 0 \<Longrightarrow> float32 x = of_int (round_half_even (x / 2 powi (float32_exponent x - 23))) * 2 powi (float32_exponent x - 23)"
  by (simp add: float32_def Let_def)

lemma floor_log2_bounds:
  assumes "x \<noteq> 0"
  shows "2 powi \<lfloor>log 2 \<bar>x\<bar>\<rfloor> \<le> \<bar>x\<bar>" "\<bar>x\<bar> < 2 powi (\<lfloor>log 2 \<bar>x\<bar>\<rfloor> + 1)"
proof -
  have "0 < \<bar>x\<bar>" using assms by simp
  then have "2 powr \<lfloor>log 2 \<bar>x\<bar>\<rfloor> \<le> \<bar>x\<bar> \<and> \<bar>x\<bar> < 2 powr (\<lfloor>log 2 \<bar>x\<bar>\<rfloor> + 1)"
    using floor_log_eq_powr_iff [of "\<bar>x\<bar>" 2 "\<lfloor>log 2 \<bar>x\<bar>\<rfloor>"] by simp
  then show "2 powi \<lfloor>log 2 \<bar>x\<bar>\<rfloor> \<le> \<bar>x\<bar>" "\<bar>x\<bar> < 2 powi (\<lfloor>log 2 \<bar>x\<bar>\<rfloor> + 1)"
    using powr_real_of_int' [of 2 "\<lfloor>log 2 \<bar>x\<bar>\<rfloor>"] powr_real_of_int' [of 2 "\<lfloor>log 2 \<bar>x\<bar>\<rfloor> + 1"]
    by simp_all
qed

lemma float32_exponent_eqI:
  assumes "2 powi e \<le> \<bar>x\<bar>" "\<bar>x\<bar> < 2 powi (e + 1)" "- 126 \<le> e"
  shows "float32_exponent x = e"
proof -
  have pos: "0 < \<bar>x\<bar>"
    using assms(1) zero_less_power_int [of "2::real" e] by linarith
  have "2 powr e \<le> \<bar>x\<bar> \<and> \<bar>x\<bar> < 2 powr (e + 1)"
    using assms(1,2) powr_real_of_int' [of 2 e] powr_real_of_int' [of 2 "e + 1"] by simp
  then have "\<lfloor>log 2 \<bar>x\<bar>\<rfloor> = e"
    using floor_log_eq_powr_iff [of "\<bar>x\<bar>" 2 e] pos by simp
  then show ?thesis
    using assms(3) by (simp add: float32_exponent_def)
qed

lemma float32_eval:
  assumes "2 powi e \<le> \<bar>x\<bar>" "\<bar>x\<bar> < 2 powi (e + 1)" "- 126 \<le> e"
  shows "float32 x = of_int (round_half_even (x / 2 powi (e - 23))) * 2 powi (e - 23)"
proof -
  have "0 < \<bar>x\<bar>"
    using assms(1) zero_less_power_int [of "2::real" e] by linarith
  then have "x \<noteq> 0"
    by simp
  then show ?thesis
    using float32_exponent_eqI [OF assms] by (simp add: float32_alt)
qed

lemma float32_values:
  "float32 (- 240) = - 240"
  "float32 (- 120) = - 120"
  "float32 3 = 3"
  "float32 6 = 6"
  "float32 60 = 60"
      apply (subst float32_eval [of 7]; simp)
     apply (subst float32_eval [of 6]; simp)
    apply (subst float32_eval [of 1]; simp)
   apply (subst float32_eval [of 2]; simp)
  apply (subst float32_eval [of 5]; simp)
  done

lemma float32_tenth: "float32 (1 / 10) = 13421773 / 134217728"
  by (subst float32_eval [of "- 4"]) (simp_all add: round_half_even_def)

lemma float32_example_floor: "float32 (- 175.35) = - 11491738 / 65536"
  by (subst float32_eval [of 7]) (simp_all add: round_half_even_def)

lemma float32_zero [simp]: "float32 0 = 0"
  by (simp add: float32_def)

lemma float32_exponent_props:
  assumes "x \<noteq> 0"
  shows "- 126 \<le> float32_exponent x"
    and "\<bar>x\<bar> < 2 powi (float32_exponent x + 1)"
    and "- 126 < float32_exponent x \<Longrightarrow> 2 powi float32_exponent x \<le> \<bar>x\<bar>"
proof -
  show "- 126 \<le> float32_exponent x"
    by (simp add: float32_exponent_def)
  have "\<lfloor>log 2 \<bar>x\<bar>\<rfloor> + 1 \<le> float32_exponent x + 1"
    by (simp add: float32_exponent_def)
  then have "(2::real) powi (\<lfloor>log 2 \<bar>x\<bar>\<rfloor> + 1) \<le> 2 powi (float32_exponent x + 1)"
    by (intro power_int_increasing) auto
  then show "\<bar>x\<bar> < 2 powi (float32_exponent x + 1)"
    using floor_log2_bounds(2) [OF assms] by linarith
  show "2 powi float32_exponent x \<le> \<bar>x\<bar>" if "- 126 < float32_exponent x"
  proof -
    have "float32_exponent x = \<lfloor>log 2 \<bar>x\<bar>\<rfloor>"
      using that by (simp add: float32_exponent_def max_def split: if_splits)
    then show ?thesis
      using floor_log2_bounds(1) [OF assms] by simp
  qed
qed

lemma float32_exponent_mono:
  assumes "x \<noteq> 0" "\<bar>x\<bar> \<le> \<bar>y\<bar>"
  shows "float32_exponent x \<le> float32_exponent y"
proof -
  have "log 2 \<bar>x\<bar> \<le> log 2 \<bar>y\<bar>"
    using assms by simp
  then have "\<lfloor>log 2 \<bar>x\<bar>\<rfloor> \<le> \<lfloor>log 2 \<bar>y\<bar>\<rfloor>"
    by (rule floor_mono)
  then show ?thesis
    by (simp add: float32_exponent_def)
qed

lemma two_powi_split: "(2::real) powi (e + 1) = 2 ^ 24 * 2 powi (e - 23)"
proof -
  have "e + 1 = 24 + (e - 23)"
    by simp
  then have "(2::real) powi (e + 1) = 2 powi (24 + (e - 23))"
    by (rule arg_cong)
  also have "\<dots> = 2 powi 24 * 2 powi (e - 23)"
    by (subst power_int_add) simp_all
  finally show ?thesis
    by simp
qed

lemma two_powi_split': "(2::real) powi e = 2 ^ 23 * 2 powi (e - 23)"
proof -
  have "e = 23 + (e - 23)"
    by simp
  then have "(2::real) powi e = 2 powi (23 + (e - 23))"
    by (rule arg_cong)
  also have "\<dots> = 2 powi 23 * 2 powi (e - 23)"
    by (subst power_int_add) simp_all
  finally show ?thesis
    by simp
qed

lemma float32_pos_bounds:
  assumes "0 < x"
  shows "0 \<le> float32 x"
    and "float32 x \<le> 2 powi (float32_exponent x + 1)"
    and "- 126 < float32_exponent x \<Longrightarrow> 2 powi float32_exponent x \<le> float32 x"
proof -
  define e where "e = float32_exponent x"
  define u :: real where "u = 2 powi (e - 23)"
  have u: "0 < u"
    by (simp add: u_def)
  have x: "x \<noteq> 0" "\<bar>x\<bar> = x"
    using assms by simp_all
  have F: "float32 x = of_int (round_half_even (x / u)) * u"
    using x(1) by (simp add: float32_alt e_def u_def)
  have "0 \<le> x / u"
    using assms u by simp
  then have "round_half_even 0 \<le> round_half_even (x / u)"
    by (rule round_half_even_mono)
  then show "0 \<le> float32 x"
    using u by (simp add: F)
  have "x < 2 ^ 24 * u"
    using float32_exponent_props(2) [OF x(1)] x(2) two_powi_split [of e] by (simp add: e_def u_def)
  then have "x / u \<le> of_int (2 ^ 24)"
    using u by (simp add: field_simps)
  then have "round_half_even (x / u) \<le> round_half_even (of_int (2 ^ 24))"
    by (rule round_half_even_mono)
  then have "round_half_even (x / u) \<le> 2 ^ 24"
    by (simp only: round_half_even_int)
  then have "real_of_int (round_half_even (x / u)) \<le> 2 ^ 24"
    by (metis of_int_le_iff of_int_numeral of_int_power)
  then have "float32 x \<le> 2 ^ 24 * u"
    using u by (simp add: F)
  then show "float32 x \<le> 2 powi (float32_exponent x + 1)"
    using two_powi_split [of e] by (simp add: e_def u_def)
  show "2 powi float32_exponent x \<le> float32 x" if "- 126 < float32_exponent x"
  proof -
    have "2 ^ 23 * u \<le> x"
      using float32_exponent_props(3) [OF x(1) that] x(2) two_powi_split' [of e] by (simp add: e_def u_def)
    then have "of_int (2 ^ 23) \<le> x / u"
      using u by (simp add: field_simps)
    then have "round_half_even (of_int (2 ^ 23)) \<le> round_half_even (x / u)"
      by (rule round_half_even_mono)
    then have "2 ^ 23 \<le> round_half_even (x / u)"
      by (simp only: round_half_even_int)
    then have "2 ^ 23 \<le> real_of_int (round_half_even (x / u))"
      by (metis of_int_le_iff of_int_numeral of_int_power)
    then have "2 ^ 23 * u \<le> float32 x"
      using u by (simp add: F)
    then show ?thesis
      using two_powi_split' [of e] by (simp add: e_def u_def)
  qed
qed


lemma round_half_even_minus: "round_half_even (- x) = - round_half_even x"
proof (cases "x \<in> \<int>")
  case True
  then obtain k where "x = of_int k"
    by (auto elim: Ints_cases)
  then show ?thesis
    using round_half_even_int [of "- k"] by simp
next
  case False
  then have "x \<noteq> of_int \<lfloor>x\<rfloor>"
    by (metis Ints_of_int)
  then have c: "\<lceil>x\<rceil> = \<lfloor>x\<rfloor> + 1"
    by (simp add: ceiling_altdef)
  have f: "\<lfloor>- x\<rfloor> = - \<lfloor>x\<rfloor> - 1"
    using c by (simp add: floor_minus)
  have d: "- x - of_int \<lfloor>- x\<rfloor> = 1 - (x - of_int \<lfloor>x\<rfloor>)"
    by (simp add: f)
  show ?thesis
    unfolding round_half_even_def Let_def d
    by (auto simp: f)
qed

lemma float32_minus: "float32 (- x) = - float32 x"
  by (simp add: float32_def float32_exponent_def Let_def round_half_even_minus)

lemma float32_mono_pos:
  assumes "0 < x" "x \<le> y"
  shows "float32 x \<le> float32 y"
proof (cases "float32_exponent x = float32_exponent y")
  case True
  define u :: real where "u = 2 powi (float32_exponent y - 23)"
  have u: "0 < u"
    by (simp add: u_def)
  have "x / u \<le> y / u"
    using assms(2) u by (simp add: divide_right_mono)
  then have "round_half_even (x / u) \<le> round_half_even (y / u)"
    by (rule round_half_even_mono)
  then have "of_int (round_half_even (x / u)) * u \<le> of_int (round_half_even (y / u)) * u"
    using u by simp
  then show ?thesis
    using assms True by (simp add: float32_alt u_def)
next
  case False
  have "float32_exponent x \<le> float32_exponent y"
    using assms by (intro float32_exponent_mono) auto
  then have lt: "float32_exponent x + 1 \<le> float32_exponent y"
    using False by linarith
  have y: "0 < y"
    using assms by linarith
  have "- 126 \<le> float32_exponent x"
    by (simp add: float32_exponent_def)
  then have "- 126 < float32_exponent y"
    using lt by linarith
  then have "2 powi float32_exponent y \<le> float32 y"
    using float32_pos_bounds(3) [OF y] by simp
  moreover have "float32 x \<le> 2 powi (float32_exponent x + 1)"
    using float32_pos_bounds(2) [OF assms(1)] .
  moreover have "(2::real) powi (float32_exponent x + 1) \<le> 2 powi float32_exponent y"
    using lt by (intro power_int_increasing) auto
  ultimately show ?thesis
    by linarith
qed

lemma float32_mono:
  assumes "x \<le> y"
  shows "float32 x \<le> float32 y"
proof -
  consider "0 < x" | "y < 0" | "x \<le> 0" "0 \<le> y"
    by linarith
  then show ?thesis
  proof cases
    case 1
    then show ?thesis
      using assms by (rule float32_mono_pos)
  next
    case 2
    then have "float32 (- y) \<le> float32 (- x)"
      using assms by (intro float32_mono_pos) auto
    then show ?thesis
      by (simp add: float32_minus)
  next
    case 3
    have "float32 x \<le> 0"
    proof (cases "x = 0")
      case False
      then have "0 \<le> float32 (- x)"
        using 3(1) by (intro float32_pos_bounds(1)) auto
      then show ?thesis
        by (simp add: float32_minus)
    qed simp
    moreover have "0 \<le> float32 y"
    proof (cases "y = 0")
      case False
      then show ?thesis
        using 3(2) by (intro float32_pos_bounds(1)) auto
    qed simp
    ultimately show ?thesis
      by linarith
  qed
qed


lemma length_astype_float32 [simp]: "length (astype_float32 xs) = length xs"
  by (simp add: astype_float32_def)

lemma length_astype_complex64 [simp]: "length (astype_complex64 xs) = length xs"
  by (simp add: astype_complex64_def)

lemma astype_float32_replicate: "astype_float32 (replicate n v) = replicate n (float32 v)"
  by (simp add: astype_float32_def)

lemma astype_complex64_zeros: "astype_complex64 (replicate n 0) = replicate n 0"
  by (simp add: astype_complex64_def zero_complex.code)

subsection \<open>Lengths and constant arrays\<close>

lemma dft_zeros: "dft (replicate n 0) = replicate n 0"
  by (simp add: dft_def map_replicate_const)

lemma length_dft [simp]: "length (dft x) = length x"
  by (simp add: dft_def)

lemma length_fftshift [simp]: "length (fftshift x) = length x"
  by (simp add: fftshift_def Let_def)

lemma fftshift_replicate: "fftshift (replicate n v) = replicate n v"
  by (simp add: fftshift_def Let_def replicate_add [symmetric])

lemma eps_db: "20 * log 10 epsilon = - 240"
  using log_pow_cancel [of 10 12] by (simp add: epsilon_def log_divide)

lemma length_np_hanning [simp]: "length (np_hanning n) = n"
  by (simp add: np_hanning_def)

lemma length_np_full [simp]: "length (np_full r c v) = r"
  by (simp add: np_full_def)

lemma set_np_full: "row \<in> set (np_full r c v) \<Longrightarrow> length row = c"
  by (auto simp: np_full_def)

lemma map2_zeros: "length ys = n \<Longrightarrow> map2 (*) (replicate n (0::complex)) ys = replicate n 0"
  by (induction ys arbitrary: n) auto

lemma np_multiply_zeros:
  "length ys = n \<Longrightarrow> np_multiply (replicate n 0) ys = Inr (replicate n 0)"
  by (simp add: np_multiply_def map2_zeros)

lemma np_multiply_one_zero:
  assumes "ys \<noteq> []"
  shows "np_multiply [0] ys = Inr (replicate (length ys) 0)"
proof (cases "length ys = 1")
  case True
  then obtain y where "ys = [y]"
    by (cases ys) auto
  then show ?thesis
    by (simp add: np_multiply_def)
next
  case False
  then show ?thesis
    by (simp add: np_multiply_def map_replicate_const mult_zero_left [abs_def])
qed

lemma np_fft_zeros: "0 < n \<Longrightarrow> np_fft (replicate n 0) n = Inr (replicate n 0)"
  by (simp add: np_fft_def dft_zeros)

lemma length_np_fft: "np_fft x n = Inr F \<Longrightarrow> length F = n \<and> 0 < n"
  by (auto simp: np_fft_def split: if_splits)

subsection \<open>The spectral transform\<close>

lemma power_spectrum_zeros:
  assumes "0 < n" "length w = n"
  shows "power_spectrum w n (replicate n 0) = Inr (replicate n (20 * log 10 epsilon))"
  using assms
  by (simp add: power_spectrum_def astype_complex64_zeros np_mean_def np_multiply_zeros
        np_fft_zeros fftshift_replicate sum_list_replicate)

lemma power_spectrum_one_sample:
  assumes "0 < n" "length w = n"
  shows "power_spectrum w n [c] = Inr (replicate n (20 * log 10 epsilon))"
proof -
  have "np_multiply [0] (map complex_of_real w) = Inr (replicate n 0)"
    using assms np_multiply_one_zero [of "map complex_of_real w"] by auto
  then show ?thesis
    using assms
    by (simp add: power_spectrum_def astype_complex64_def np_mean_def np_fft_zeros
        fftshift_replicate)
qed

lemma power_spectrum_mismatch:
  assumes "length w = n" "length block \<noteq> n" "length block \<noteq> 1" "n \<noteq> 1"
  shows "power_spectrum w n block = Inl ValueError"
  using assms
  by (simp add: power_spectrum_def np_multiply_def)

lemma length_power_spectrum:
  assumes "power_spectrum w n block = Inr p"
  shows "length p = n \<and> 0 < n"
  using assms
  by (auto simp: power_spectrum_def Let_def split: sum.splits dest: length_np_fft)

subsection \<open>What the methods leave alone\<close>

lemma update_freq_axis_frame:
  "snd (update_freq_axis s) =
     s\<lparr>freqs_mhz := freqs_mhz (snd (update_freq_axis s)),
       img_rect := img_rect (snd (update_freq_axis s))\<rparr>"
  by (simp add: update_freq_axis_def Let_def split: sum.split)

lemma update_freq_axis_fields [simp]:
  "nfft (snd (update_freq_axis s)) = nfft s"
  "window (snd (update_freq_axis s)) = window s"
  "waterfall (snd (update_freq_axis s)) = waterfall s"
  "waterfall_rows (snd (update_freq_axis s)) = waterfall_rows s"
  "db_max_smooth (snd (update_freq_axis s)) = db_max_smooth s"
  "dynamic_range_db (snd (update_freq_axis s)) = dynamic_range_db s"
  "closing (snd (update_freq_axis s)) = closing s"
  "sdr (snd (update_freq_axis s)) = sdr s"
  "fps (snd (update_freq_axis s)) = fps s"
  "timer_interval (snd (update_freq_axis s)) = timer_interval s"
  by (subst update_freq_axis_frame, simp)+

lemma init_simps [simp]:
  "nfft init = 2048"
  "window init = astype_float32 (np_hanning 2048)"
  "waterfall init = np_full 300 2048 (- 120)"
  "waterfall_rows init = 300"
  "db_max_smooth init = None"
  "dynamic_range_db init = 60"
  "closing init = False"
  by (simp_all add: init_def init_fields_def)

lemma set_gain_fields [simp]:
  "nfft (set_gain py t s) = nfft s"
  "window (set_gain py t s) = window s"
  "waterfall (set_gain py t s) = waterfall s"
  "waterfall_rows (set_gain py t s) = waterfall_rows s"
  "db_max_smooth (set_gain py t s) = db_max_smooth s"
  "dynamic_range_db (set_gain py t s) = dynamic_range_db s"
  "closing (set_gain py t s) = closing s"
  "center_freq (sdr (set_gain py t s)) = center_freq (sdr s)"
  "sample_rate (sdr (set_gain py t s)) = sample_rate (sdr s)"
  by (simp_all add: set_gain_def Let_def split: option.split)

lemma nfft_set_nfft [simp]: "nfft (set_nfft n s) = n"
  by (simp add: set_nfft_def)

lemma set_nfft_fields [simp]:
  "waterfall_rows (set_nfft n s) = waterfall_rows s"
  "dynamic_range_db (set_nfft n s) = dynamic_range_db s"
  "closing (set_nfft n s) = closing s"
  "sdr (set_nfft n s) = sdr s"
  by (simp_all add: set_nfft_def)

lemma apply_settings_fields [simp]:
  "nfft (snd (apply_settings py u s)) = fft_value (fft_input u)"
  "waterfall_rows (snd (apply_settings py u s)) = waterfall_rows s"
  "dynamic_range_db (snd (apply_settings py u s)) = dynamic_range_db s"
  "closing (snd (apply_settings py u s)) = closing s"
  by (simp_all add: apply_settings_def Let_def)

subsection \<open>The shapes stay consistent\<close>

lemma consistent_updates [simp]:
  "consistent (s\<lparr>sdr := d\<rparr>) = consistent s"
  "consistent (s\<lparr>fps := f\<rparr>) = consistent s"
  "consistent (s\<lparr>timer_interval := t\<rparr>) = consistent s"
  "consistent (s\<lparr>closing := c\<rparr>) = consistent s"
  "consistent (s\<lparr>db_max_smooth := m\<rparr>) = consistent s"
  "consistent (set_gain py txt s) = consistent s"
  "consistent (snd (update_freq_axis s)) = consistent s"
  by (simp_all add: consistent_def)

lemma consistent_set_nfft: "consistent s \<Longrightarrow> consistent (set_nfft n s)"
  by (auto simp: consistent_def set_nfft_def dest: set_np_full)

lemma consistent_apply_settings:
  "consistent s \<Longrightarrow> consistent (snd (apply_settings py u s))"
  by (simp add: apply_settings_def Let_def consistent_set_nfft)

subsection \<open>One push, one tick\<close>

lemma length_np_clip [simp]: "length (np_clip p lo hi) = length p"
  by (simp add: np_clip_def)

lemma length_shift_rows [simp]: "length (shift_rows w) = length w"
  by (cases w) (simp_all add: shift_rows_def)

lemma set_shift_rows: "set (shift_rows w) \<subseteq> set w"
  by (cases w) (auto simp: shift_rows_def dest: list.set_sel(2))

lemma shift_rows_nonempty [simp]: "shift_rows w = [] \<longleftrightarrow> w = []"
  by (simp add: shift_rows_def)

lemma last_shift_rows: "w \<noteq> [] \<Longrightarrow> last (shift_rows w) = last w"
  by (simp add: shift_rows_def)

lemma butlast_shift_rows: "w \<noteq> [] \<Longrightarrow> butlast (shift_rows w) = tl w"
  by (simp add: shift_rows_def)

lemma scroll_push_ok:
  assumes "w \<noteq> []" "length (last w) = length p"
  shows "scroll_push w p lo hi = (None, tl w @ [astype_float32 (np_clip p lo hi)])"
  using assms
  by (simp add: scroll_push_def set_last_row_def last_shift_rows butlast_shift_rows)

lemma scroll_push_shape:
  assumes "\<forall>row \<in> set w. length row = n" "scroll_push w p lo hi = (r, w')"
  shows "(\<forall>row \<in> set w'. length row = n) \<and> length w' = length w"
proof (cases "w = []")
  case True
  with assms show ?thesis
    by (auto simp: scroll_push_def set_last_row_def shift_rows_def)
next
  case False
  have sh: "\<forall>row \<in> set (shift_rows w). length row = n"
    using assms(1) set_shift_rows by blast
  then have bl: "\<forall>row \<in> set (butlast (shift_rows w)). length row = n"
    by (meson in_set_butlastD)
  have la: "length (last (shift_rows w)) = n"
    using sh False by simp
  have len: "length (butlast (shift_rows w)) + 1 = length w"
    using False by simp
  from assms(2) show ?thesis
    using False sh bl la len
    by (auto simp: scroll_push_def set_last_row_def Let_def split: if_splits)
qed

subsection \<open>The invariant of the reachable objects\<close>

lemma update_level_fields [simp]:
  "nfft (fst (update_level s p)) = nfft s"
  "window (fst (update_level s p)) = window s"
  "waterfall (fst (update_level s p)) = waterfall s"
  "waterfall_rows (fst (update_level s p)) = waterfall_rows s"
  "dynamic_range_db (fst (update_level s p)) = dynamic_range_db s"
  "closing (fst (update_level s p)) = closing s"
  by (simp_all add: update_level_def Let_def)

lemma update_once_fields [simp]:
  "nfft (snd (update_once rd s)) = nfft s"
  "window (snd (update_once rd s)) = window s"
  "waterfall_rows (snd (update_once rd s)) = waterfall_rows s"
  "dynamic_range_db (snd (update_once rd s)) = dynamic_range_db s"
  "closing (snd (update_once rd s)) = closing s"
  by (simp_all add: update_once_def update_level_def Let_def split: sum.split prod.split)

lemma consistent_update_once:
  assumes "consistent s"
  shows "consistent (snd (update_once rd s))"
proof -
  have "length (waterfall (snd (update_once rd s))) = length (waterfall s) \<and>
        (\<forall>row \<in> set (waterfall (snd (update_once rd s))). length row = nfft s)"
    using assms
    by (auto simp: update_once_def update_level_def Let_def consistent_def
          split: sum.split prod.split dest: scroll_push_shape)
  with assms show ?thesis
    by (simp add: consistent_def)
qed

lemma consistent_init: "consistent init"
  by (auto simp: consistent_def dest: set_np_full)

lemma consistent_closeEvent [simp]: "consistent (closeEvent s) = consistent s"
  by (simp add: consistent_def closeEvent_def)

lemma closeEvent_fields [simp]:
  "nfft (closeEvent s) = nfft s"
  "waterfall_rows (closeEvent s) = waterfall_rows s"
  "dynamic_range_db (closeEvent s) = dynamic_range_db s"
  by (simp_all add: closeEvent_def)

lemma reachable_invariant:
  assumes "reachable s"
  shows "consistent s \<and> waterfall_rows s = 300 \<and> dynamic_range_db s = 60 \<and>
         (\<exists>c. nfft s = fft_value c)"
  using assms
proof (induction rule: reachable.induct)
  case reach_init
  have "nfft init = fft_value FFT_2048" by simp
  then show ?case
    using consistent_init by (metis init_simps(4,6))
next
  case (reach_apply s u py)
  then show ?case
    by (auto simp: consistent_apply_settings)
next
  case (reach_tick s rd)
  then show ?case
    by (auto simp: consistent_update_once)
next
  case (reach_close s)
  then show ?case
    by auto
qed

subsection \<open>A constant spectrum and a successful tick\<close>

lemma sort_replicate: "sort (replicate n (c::real)) = replicate n c"
  by (induction n) (simp_all add: insort_is_Cons)

lemma percentile_index_bound:
  assumes "0 < n" "0 \<le> q" "q \<le> 100"
  shows "nat \<lfloor>q / 100 * (real n - 1)\<rfloor> \<le> n - 1"
proof -
  have "q / 100 * (real n - 1) \<le> 1 * (real n - 1)"
    using assms by (intro mult_right_mono) auto
  also have "\<dots> = real (n - 1)"
    using assms by simp
  finally have "\<lfloor>q / 100 * (real n - 1)\<rfloor> \<le> \<lfloor>real (n - 1)\<rfloor>"
    by (rule floor_mono)
  then show ?thesis
    by simp
qed

lemma np_percentile_replicate:
  assumes "0 < n"
  shows "np_percentile (replicate n c) 99 = c"
proof -
  have "nat \<lfloor>99 / 100 * (real n - 1)\<rfloor> \<le> n - 1"
    using assms by (intro percentile_index_bound) auto
  then have "nat \<lfloor>99 / 100 * (real n - 1)\<rfloor> < n"
    using assms by linarith
  then show ?thesis
    using assms by (simp add: np_percentile_def Let_def sort_replicate)
qed

lemma np_clip_replicate: "np_clip (replicate n v) lo hi = replicate n (min (max v lo) hi)"
  by (simp add: np_clip_def)

lemma update_once_ok:
  assumes "\<not> closing s" "consistent s" "waterfall s \<noteq> []"
    and "power_spectrum (window s) (nfft s) block = Inr p"
  shows "update_once (Inr block) s =
           (None, (fst (update_level s p))
                    \<lparr>waterfall := tl (waterfall s) @
                       [astype_float32
                          (np_clip p (fst (snd (update_level s p))) (snd (snd (update_level s p))))]\<rparr>)"
proof -
  have "length p = nfft s"
    using assms(4) length_power_spectrum by blast
  moreover have "length (last (waterfall s)) = nfft s"
    using assms(2,3) by (simp add: consistent_def)
  ultimately have "scroll_push (waterfall s) p lo hi =
      (None, tl (waterfall s) @ [astype_float32 (np_clip p lo hi)])"
    for lo hi
    using assms(3) by (simp add: scroll_push_ok)
  then show ?thesis
    using assms(1,4)
    by (simp add: update_once_def split: prod.split) (simp add: update_level_def Let_def)
qed

lemma waterfall_init_ne: "waterfall init \<noteq> []"
  by (simp add: np_full_def)

section \<open>The claims\<close>

subsection \<open>C6: an all-zero block\<close>

text \<open>
  C6. For every FFT size \<open>N\<close> (at least 1, as every size of the program is) and the
  window of that size, the transform of the all-zero block of length \<open>N\<close> is the
  spectrum whose \<open>N\<close> bins all equal \<open>20 * log10(1e-12)\<close>, which is -240 dB.
\<close>

theorem zero_block_floor:
  assumes "0 < N"
  shows "power_spectrum (astype_float32 (np_hanning N)) N (replicate N 0) =
           Inr (replicate N (20 * log 10 (1 / 10 ^ 12))) \<and>
         20 * log 10 (1 / 10 ^ 12) = (- 240 :: real)"
  using assms power_spectrum_zeros [of N "astype_float32 (np_hanning N)"] eps_db
  by (simp add: epsilon_def)

theorem zero_block_floor_witness:
  "(0::nat) < 2048 \<and>
   power_spectrum (astype_float32 (np_hanning 2048)) 2048 (replicate 2048 0) =
     Inr (replicate 2048 (- 240))"
  using zero_block_floor [of 2048] by simp

subsection \<open>C1: a block of the wrong length\<close>

text \<open>
  C1, as stated, fails: a block of one sample is broadcast against the window by
  \<^verbatim>\<open>iq * self.window\<close>. In the object that \<^verbatim>\<open>__init__\<close> builds (FFT size 2048) the tick
  for the one-sample block \<open>[1]\<close> raises nothing and writes a row of 2048 bins at
  -240 dB into the matrix.
\<close>

theorem one_sample_block_counterexample:
  "length [1::complex] \<noteq> nfft init \<and>
   power_spectrum (window init) (nfft init) [1] = Inr (replicate 2048 (- 240)) \<and>
   fst (update_once (Inr [1]) init) = None \<and>
   last (waterfall (snd (update_once (Inr [1]) init))) = replicate 2048 (- 240)"
proof -
  have p: "power_spectrum (window init) (nfft init) [1] = Inr (replicate 2048 (- 240))"
    using power_spectrum_one_sample [of 2048 "astype_float32 (np_hanning 2048)" 1]
    by (simp add: eps_db)
  show ?thesis
    using p update_once_ok [OF _ consistent_init waterfall_init_ne p]
    by (simp add: update_level_def Let_def np_percentile_replicate np_clip_replicate
          astype_float32_replicate float32_values)
qed

text \<open>
  C1, amended. The source has no length check of its own; the failure is numpy's. For
  every block whose length is neither the FFT size nor 1 (the FFT size itself not 1, the
  window of that size), the tick raises \<^verbatim>\<open>ValueError\<close> at the window multiplication and
  leaves the object as it was: nothing is padded or cut, no spectrum is produced.
\<close>

theorem wrong_length_block_raises:
  assumes "\<not> closing s" "length (window s) = nfft s" "nfft s \<noteq> 1"
    and "length block \<noteq> nfft s" "length block \<noteq> 1"
  shows "power_spectrum (window s) (nfft s) block = Inl ValueError \<and>
         update_once (Inr block) s = (Some ValueError, s)"
  using assms power_spectrum_mismatch [of "window s" "nfft s" block]
  by (simp add: update_once_def)

theorem wrong_length_block_raises_witness:
  "\<not> closing init \<and> length (window init) = nfft init \<and> nfft init \<noteq> 1 \<and>
   length [2, 3 :: complex] \<noteq> nfft init \<and> length [2, 3 :: complex] \<noteq> 1 \<and>
   update_once (Inr [2, 3]) init = (Some ValueError, init)"
  using wrong_length_block_raises [of init "[2, 3]"] by simp

subsection \<open>C8: a failed read\<close>

text \<open>
  C8. When \<^verbatim>\<open>read_samples\<close> raises, the exception leaves \<^verbatim>\<open>update_once\<close> (nothing
  catches it) and the object is exactly as before the tick: the matrix, the smoothed
  ceiling and every other field. (A closing object returns before it reads.)
\<close>

theorem failed_read_changes_nothing:
  "update_once (Inl e) s = ((if closing s then None else Some e), s) \<and>
   waterfall (snd (update_once (Inl e) s)) = waterfall s \<and>
   db_max_smooth (snd (update_once (Inl e) s)) = db_max_smooth s"
  by (simp add: update_once_def)

theorem failed_read_changes_nothing_witness:
  "update_once (Inl DeviceError) init = (Some DeviceError, init)"
  using failed_read_changes_nothing [of DeviceError init] by simp

subsection \<open>The frequency axis\<close>

lemma fftshift_fftfreq:
  assumes "0 < n" "d \<noteq> 0"
  shows "\<exists>fr. fftfreq n d = Inr fr \<and>
              fftshift fr = map (\<lambda>i. (real i - real (n div 2)) / (real n * d)) [0..<n]"
proof -
  define N where "N = (n - 1) div 2 + 1"
  define f where "f = (\<lambda>i. real_of_int i * (1 / (real n * d)))"
  define A where "A = map (\<lambda>i. f (int i)) [0..<N]"
  define B where "B = map (\<lambda>j. f (int j - int (n div 2))) [0..<n div 2]"
  have split: "n - N = n div 2" "n - n div 2 = N" "N + n div 2 = n"
    using assms(1) unfolding N_def by presburger+
  have "fftfreq n d = Inr (map f (map int [0..<N] @ map (\<lambda>j. int j - int (n div 2)) [0..<n - N]))"
    unfolding fftfreq_def Let_def N_def f_def using assms by simp
  then have fr: "fftfreq n d = Inr (A @ B)"
    unfolding split(1) by (simp add: A_def B_def comp_def)
  have len: "length A = N" "length B = n div 2"
    by (simp_all add: A_def B_def)
  have "fftshift (A @ B) = B @ A"
    using len split by (simp add: fftshift_def Let_def)
  moreover have "B @ A = map (\<lambda>i. (real i - real (n div 2)) / (real n * d)) [0..<n]"
  proof (rule nth_equalityI)
    show "length (B @ A) = length (map (\<lambda>i. (real i - real (n div 2)) / (real n * d)) [0..<n])"
      using len split by simp
  next
    fix i assume "i < length (B @ A)"
    then have i: "i < n"
      using len split by simp
    show "(B @ A) ! i = map (\<lambda>i. (real i - real (n div 2)) / (real n * d)) [0..<n] ! i"
    proof (cases "i < n div 2")
      case True
      then show ?thesis
        using i by (simp add: nth_append B_def f_def)
    next
      case False
      then have "i - n div 2 < N"
        using i split by linarith
      then show ?thesis
        using i False by (simp add: nth_append B_def A_def f_def)
    qed
  qed
  ultimately show ?thesis
    using fr by simp
qed

lemma update_freq_axis_ok:
  assumes "0 < nfft s" "sample_rate (sdr s) \<noteq> 0"
  shows "fst (update_freq_axis s) = None \<and>
         freqs_mhz (snd (update_freq_axis s)) =
           map (\<lambda>i. ((real i - real (nfft s div 2)) * (sample_rate (sdr s) / real (nfft s))
                        + center_freq (sdr s)) / 10 ^ 6) [0..<nfft s]"
proof -
  obtain fr where fr: "fftfreq (nfft s) (1 / sample_rate (sdr s)) = Inr fr"
    "fftshift fr = map (\<lambda>i. (real i - real (nfft s div 2)) / (real (nfft s) * (1 / sample_rate (sdr s)))) [0..<nfft s]"
    using fftshift_fftfreq [of "nfft s" "1 / sample_rate (sdr s)"] assms by auto
  have ne: "[0..<nfft s] \<noteq> []"
    using assms(1) by simp
  show ?thesis
    using assms fr ne
    by (simp add: update_freq_axis_def Let_def comp_def)
qed

subsection \<open>C7: the frequency axis\<close>

text \<open>
  C7. \<^verbatim>\<open>update_freq_axis\<close> stores, for every column \<open>i\<close> of the \<open>n\<close> columns, the frequency
  \<open>center + (i - n div 2) * (rate / n)\<close> (in MHz), so neighbouring columns are \<open>rate / n\<close>
  apart. For an even \<open>n\<close>, which every FFT size of the program is, column 0 is
  \<open>center - rate / 2\<close>, the lowest frequency, and column \<open>n - 1\<close> is
  \<open>center + rate / 2 - rate / n\<close>, the highest one.
\<close>

theorem freq_axis_edges:
  assumes "0 < nfft s" "even (nfft s)" "0 < sample_rate (sdr s)"
  shows "fst (update_freq_axis s) = None \<and>
         length (freqs_mhz (snd (update_freq_axis s))) = nfft s \<and>
         freqs_mhz (snd (update_freq_axis s)) ! 0 * 10 ^ 6 =
           center_freq (sdr s) - sample_rate (sdr s) / 2 \<and>
         freqs_mhz (snd (update_freq_axis s)) ! (nfft s - 1) * 10 ^ 6 =
           center_freq (sdr s) + sample_rate (sdr s) / 2 - sample_rate (sdr s) / real (nfft s) \<and>
         (\<forall>i. i + 1 < nfft s \<longrightarrow>
            (freqs_mhz (snd (update_freq_axis s)) ! (i + 1)
               - freqs_mhz (snd (update_freq_axis s)) ! i) * 10 ^ 6 =
            sample_rate (sdr s) / real (nfft s)) \<and>
         (\<forall>i < nfft s.
            freqs_mhz (snd (update_freq_axis s)) ! 0 \<le> freqs_mhz (snd (update_freq_axis s)) ! i \<and>
            freqs_mhz (snd (update_freq_axis s)) ! i \<le> freqs_mhz (snd (update_freq_axis s)) ! (nfft s - 1))"
proof -
  define n where "n = nfft s"
  define r where "r = sample_rate (sdr s)"
  define c where "c = center_freq (sdr s)"
  define fm where "fm = freqs_mhz (snd (update_freq_axis s))"
  have ok: "fst (update_freq_axis s) = None"
    and fm: "fm = map (\<lambda>i. ((real i - real (n div 2)) * (r / real n) + c) / 10 ^ 6) [0..<n]"
    using update_freq_axis_ok [of s] assms by (simp_all add: n_def r_def c_def fm_def)
  have n: "0 < n" "even n" and r: "0 < r"
    using assms by (simp_all add: n_def r_def)
  have half: "real (n div 2) = real n / 2"
    using n(2) by (simp add: real_of_nat_div)
  have nth: "fm ! i * 10 ^ 6 = c + (real i - real n / 2) * (r / real n)" if "i < n" for i
    using that by (simp add: fm half)
  have first: "fm ! 0 * 10 ^ 6 = c - r / 2"
    using nth [of 0] n(1) by (simp add: field_simps)
  have last: "fm ! (n - 1) * 10 ^ 6 = c + r / 2 - r / real n"
    using nth [of "n - 1"] n(1) by (simp add: field_simps)
  have step: "(fm ! (i + 1) - fm ! i) * 10 ^ 6 = r / real n" if "i + 1 < n" for i
    using nth [of i] nth [of "i + 1"] that by (simp add: field_simps)
  have mono: "fm ! 0 \<le> fm ! i \<and> fm ! i \<le> fm ! (n - 1)" if "i < n" for i
  proof -
    have pos: "0 < r / real n"
      using n(1) r by simp
    have "(real 0 - real n / 2) * (r / real n) \<le> (real i - real n / 2) * (r / real n)"
      using pos by (intro mult_right_mono) auto
    moreover have "(real i - real n / 2) * (r / real n) \<le> (real (n - 1) - real n / 2) * (r / real n)"
      using pos that by (intro mult_right_mono) auto
    ultimately have "fm ! 0 * 10 ^ 6 \<le> fm ! i * 10 ^ 6 \<and> fm ! i * 10 ^ 6 \<le> fm ! (n - 1) * 10 ^ 6"
      using nth [of 0] nth [of i] nth [of "n - 1"] that n(1) by simp
    then show ?thesis
      by simp
  qed
  have len: "length fm = n"
    by (simp add: fm)
  show ?thesis
    using ok len first last step mono
    unfolding n_def r_def c_def fm_def by blast
qed


theorem freq_axis_edges_witness:
  "0 < nfft init_fields \<and> even (nfft init_fields) \<and> 0 < sample_rate (sdr init_fields) \<and>
   fst (update_freq_axis init_fields) = None \<and>
   freqs_mhz (snd (update_freq_axis init_fields)) ! 0 * 10 ^ 6 = 93700000 \<and>
   freqs_mhz (snd (update_freq_axis init_fields)) ! 2047 * 10 ^ 6 = 96100000 - 2400000 / 2048"
  using freq_axis_edges [of init_fields] by (simp add: init_fields_def)

subsection \<open>What \<^verbatim>\<open>apply_settings\<close> sets\<close>

lemma fft_value_pos [simp]: "0 < fft_value c"
  by (cases c) simp_all

lemma fft_value_even [simp]: "even (fft_value c)"
  by (cases c) simp_all

lemma apply_settings_rebuild:
  assumes "fft_value (fft_input u) \<noteq> nfft s"
  shows "window (snd (apply_settings py u s)) =
           astype_float32 (np_hanning (fft_value (fft_input u)))"
    and "waterfall (snd (apply_settings py u s)) =
           np_full (waterfall_rows s) (fft_value (fft_input u)) (- 120)"
    and "db_max_smooth (snd (apply_settings py u s)) = None"
  using assms by (simp_all add: apply_settings_def Let_def set_nfft_def)

lemma update_freq_axis_more_fields [simp]:
  "center_freq_hz (snd (update_freq_axis s)) = center_freq_hz s"
  "sample_rate_hz (snd (update_freq_axis s)) = sample_rate_hz s"
  "gain_db (snd (update_freq_axis s)) = gain_db s"
  "app.more (snd (update_freq_axis s)) = app.more s"
  by (subst update_freq_axis_frame, simp)+

lemma apply_settings_same_size_fields:
  assumes "fft_value (fft_input u) = nfft s"
  shows "center_freq_hz (snd (apply_settings py u s)) = center_freq_hz s"
    and "sample_rate_hz (snd (apply_settings py u s)) = sample_rate_hz s"
    and "gain_db (snd (apply_settings py u s)) = gain_db s"
    and "window (snd (apply_settings py u s)) = window s"
    and "waterfall (snd (apply_settings py u s)) = waterfall s"
    and "db_max_smooth (snd (apply_settings py u s)) = db_max_smooth s"
    and "app.more (snd (apply_settings py u s)) = app.more s"
  using assms
  by (simp_all add: apply_settings_def Let_def set_nfft_def set_gain_def split: option.split)

lemma apply_settings_same_size:
  assumes "fft_value (fft_input u) = nfft s"
  shows "snd (apply_settings py u s) =
           s\<lparr>sdr := sdr (snd (apply_settings py u s)),
             fps := fps (snd (apply_settings py u s)),
             timer_interval := timer_interval (snd (apply_settings py u s)),
             freqs_mhz := freqs_mhz (snd (apply_settings py u s)),
             img_rect := img_rect (snd (apply_settings py u s))\<rparr>"
  using assms
  by (intro app.equality) (simp_all add: apply_settings_same_size_fields)

lemma ui_in_range_nonzero:
  assumes "ui_in_range u"
  shows "fps_input u \<noteq> 0" "sr_input u * 10 ^ 6 \<noteq> 0"
  using assms by (auto simp: ui_in_range_def)

lemma apply_settings_ok:
  assumes "ui_in_range u"
  shows "fst (apply_settings py u s) = None"
    and "center_freq (sdr (snd (apply_settings py u s))) = freq_input u * 10 ^ 6"
    and "sample_rate (sdr (snd (apply_settings py u s))) = sr_input u * 10 ^ 6"
    and "fps (snd (apply_settings py u s)) = fps_input u"
    and "timer_interval (snd (apply_settings py u s)) =
           Some (py_int (1000 / real_of_int (fps_input u)))"
    and "freqs_mhz (snd (apply_settings py u s)) =
           map (\<lambda>i. ((real i - real (fft_value (fft_input u) div 2))
                        * (sr_input u * 10 ^ 6 / real (fft_value (fft_input u)))
                      + freq_input u * 10 ^ 6) / 10 ^ 6) [0..<fft_value (fft_input u)]"
proof -
  define x where "x = (set_nfft (fft_value (fft_input u)) (set_gain py (gain_input u)
      (s\<lparr>sdr := (sdr s)\<lparr>center_freq := freq_input u * 10 ^ 6, sample_rate := sr_input u * 10 ^ 6\<rparr>\<rparr>)))
      \<lparr>fps := fps_input u, timer_interval := Some (py_int (1000 / real_of_int (fps_input u)))\<rparr>"
  have a: "apply_settings py u s = update_freq_axis x"
    using ui_in_range_nonzero(1) [OF assms] by (simp add: apply_settings_def Let_def x_def)
  have x: "nfft x = fft_value (fft_input u)" "sample_rate (sdr x) = sr_input u * 10 ^ 6"
    "center_freq (sdr x) = freq_input u * 10 ^ 6" "fps x = fps_input u"
    "timer_interval x = Some (py_int (1000 / real_of_int (fps_input u)))"
    by (simp_all add: x_def)
  have pos: "0 < nfft x" "sample_rate (sdr x) \<noteq> 0"
    using ui_in_range_nonzero(2) [OF assms] by (simp_all add: x)
  show "fst (apply_settings py u s) = None"
    and "center_freq (sdr (snd (apply_settings py u s))) = freq_input u * 10 ^ 6"
    and "sample_rate (sdr (snd (apply_settings py u s))) = sr_input u * 10 ^ 6"
    and "fps (snd (apply_settings py u s)) = fps_input u"
    and "timer_interval (snd (apply_settings py u s)) =
           Some (py_int (1000 / real_of_int (fps_input u)))"
    and "freqs_mhz (snd (apply_settings py u s)) =
           map (\<lambda>i. ((real i - real (fft_value (fft_input u) div 2))
                        * (sr_input u * 10 ^ 6 / real (fft_value (fft_input u)))
                      + freq_input u * 10 ^ 6) / 10 ^ 6) [0..<fft_value (fft_input u)]"
    unfolding a using update_freq_axis_ok [OF pos] by (simp_all add: x)
qed

lemma apply_settings_gain_kept:
  assumes "str_lower py (py_strip (gain_input u)) \<noteq> text_of ''auto''"
    and "py_float py (str_lower py (py_strip (gain_input u))) = None"
  shows "gain (sdr (snd (apply_settings py u s))) = gain (sdr s)"
  using assms by (simp add: apply_settings_def Let_def set_gain_def)

subsection \<open>C2: reconfiguration and the shapes\<close>

text \<open>
  C2. In every object that the program can hold between two calls, the window and every
  row of the matrix have \<^verbatim>\<open>nfft\<close> entries, and so has every spectrum that the transform
  produces from there. When \<^verbatim>\<open>apply_settings\<close> finds an FFT size other than the current
  one, that one call sets \<^verbatim>\<open>nfft\<close>, builds the Hann window of the new size, allocates
  the matrix anew (same number of rows, the new number of columns, every cell -120) and
  sets the smoothed ceiling back to \<^verbatim>\<open>None\<close>.
\<close>

theorem reconfiguration_keeps_shapes:
  assumes "reachable s"
  shows "length (window s) = nfft s \<and>
         (\<forall>row \<in> set (waterfall s). length row = nfft s) \<and>
         (\<forall>block p. power_spectrum (window s) (nfft s) block = Inr p \<longrightarrow> length p = nfft s) \<and>
         (\<forall>py u. fft_value (fft_input u) \<noteq> nfft s \<longrightarrow>
            nfft (snd (apply_settings py u s)) = fft_value (fft_input u) \<and>
            window (snd (apply_settings py u s)) =
              astype_float32 (np_hanning (fft_value (fft_input u))) \<and>
            waterfall (snd (apply_settings py u s)) =
              np_full (waterfall_rows s) (fft_value (fft_input u)) (- 120) \<and>
            db_max_smooth (snd (apply_settings py u s)) = None)"
proof -
  have "consistent s"
    using assms reachable_invariant by blast
  then have "length (window s) = nfft s" "\<forall>row \<in> set (waterfall s). length row = nfft s"
    by (simp_all add: consistent_def)
  then show ?thesis
    by (auto dest: length_power_spectrum simp: apply_settings_rebuild)
qed

theorem reconfiguration_keeps_shapes_witness:
  "reachable init \<and> length (window init) = nfft init \<and>
   fft_value (fft_input ui_example) \<noteq> nfft init \<and>
   nfft (snd (apply_settings ascii_python ui_example init)) = 4096 \<and>
   window (snd (apply_settings ascii_python ui_example init)) =
     astype_float32 (np_hanning 4096) \<and>
   waterfall (snd (apply_settings ascii_python ui_example init)) = np_full 300 4096 (- 120) \<and>
   db_max_smooth (snd (apply_settings ascii_python ui_example init)) = None"
  using reconfiguration_keeps_shapes [OF reach_init] reach_init by (simp add: ui_example_def)

subsection \<open>C10: the same FFT size\<close>

text \<open>
  C10. When the FFT box holds the current size, \<^verbatim>\<open>apply_settings\<close> leaves the matrix,
  the window and the smoothed ceiling as they are. The object after the call differs
  from the one before in nothing but the device parameters, \<^verbatim>\<open>fps\<close>, the timer, and
  the frequency axis with the image rectangle.
\<close>

theorem same_size_keeps_history:
  assumes "fft_value (fft_input u) = nfft s"
  shows "waterfall (snd (apply_settings py u s)) = waterfall s \<and>
         window (snd (apply_settings py u s)) = window s \<and>
         db_max_smooth (snd (apply_settings py u s)) = db_max_smooth s \<and>
         snd (apply_settings py u s) =
           s\<lparr>sdr := sdr (snd (apply_settings py u s)),
             fps := fps (snd (apply_settings py u s)),
             timer_interval := timer_interval (snd (apply_settings py u s)),
             freqs_mhz := freqs_mhz (snd (apply_settings py u s)),
             img_rect := img_rect (snd (apply_settings py u s))\<rparr>"
  using assms apply_settings_same_size [of u s py]
  by (simp add: apply_settings_same_size_fields)

theorem same_size_keeps_history_witness:
  "fft_value (fft_input (ui_example\<lparr>fft_input := FFT_2048\<rparr>)) = nfft init \<and>
   waterfall (snd (apply_settings ascii_python (ui_example\<lparr>fft_input := FFT_2048\<rparr>) init)) =
     np_full 300 2048 (- 120) \<and>
   window (snd (apply_settings ascii_python (ui_example\<lparr>fft_input := FFT_2048\<rparr>) init)) =
     astype_float32 (np_hanning 2048) \<and>
   db_max_smooth (snd (apply_settings ascii_python (ui_example\<lparr>fft_input := FFT_2048\<rparr>) init)) = None"
  using same_size_keeps_history [of "ui_example\<lparr>fft_input := FFT_2048\<rparr>" init ascii_python]
  by simp

subsection \<open>Pushing rows\<close>

lemma np_clip_saturates:
  assumes "lo \<le> hi"
  shows "np_clip p lo hi = map (\<lambda>v. if v < lo then lo else if hi < v then hi else v) p"
  using assms by (auto simp: np_clip_def)

lemma scroll_push_clamped:
  assumes "w \<noteq> []" "length (last w) = length (fst t)"
  shows "scroll_push w (fst t) (fst (snd t)) (snd (snd t)) = (None, tl w @ [clamped t])"
  using scroll_push_ok [OF assms]
  by (simp add: clamped_def split: prod.split)

lemma length_clamped [simp]: "length (clamped t) = length (fst t)"
  by (simp add: clamped_def split: prod.split)

lemma push_all_rows:
  assumes "w \<noteq> []" "\<forall>row \<in> set w. length row = n" "\<forall>t \<in> set ps. length (fst t) = n"
  shows "push_all w ps = (None, drop (length ps) (w @ map clamped ps))"
  using assms
proof (induction ps arbitrary: w)
  case Nil
  then show ?case by simp
next
  case (Cons t ps)
  obtain p lo hi where t: "t = (p, lo, hi)"
    by (cases t) auto
  have "length (last w) = length (fst t)"
    using Cons.prems by simp
  then have sp: "scroll_push w p lo hi = (None, tl w @ [clamped t])"
    using scroll_push_clamped [of w t] Cons.prems(1) by (simp add: t)
  have rows: "\<forall>row \<in> set (tl w @ [clamped t]). length row = n"
    using Cons.prems by (auto dest: list.set_sel(2))
  have "push_all (tl w @ [clamped t]) ps =
          (None, drop (length ps) ((tl w @ [clamped t]) @ map clamped ps))"
    using Cons.prems(3) by (intro Cons.IH rows) auto
  moreover have "drop (length ps) ((tl w @ [clamped t]) @ map clamped ps) =
      drop (length (t # ps)) (w @ map clamped (t # ps))"
    using Cons.prems(1) by (cases w) simp_all
  ultimately show ?case
    by (simp add: t sp)
qed

subsection \<open>C4: scrolling\<close>

text \<open>
  C4. A matrix of \<open>R\<close> rows (at least one) receives \<open>R + 1\<close> spectra of the row length,
  each with its own bounds: \<open>S\<^sub>1\<close> and then the \<open>R\<close> spectra \<open>S\<^sub>2 \<dots> S\<^sub>R\<^sub>+\<^sub>1\<close>. No push raises,
  and afterwards the matrix is exactly the clamped \<open>S\<^sub>2 \<dots> S\<^sub>R\<^sub>+\<^sub>1\<close> in this order: row 0
  is the clamped \<open>S\<^sub>2\<close>, row \<open>R - 1\<close> the clamped \<open>S\<^sub>R\<^sub>+\<^sub>1\<close>. No row comes from \<open>S\<^sub>1\<close> or
  from the old content: the result is the same for every first spectrum and every
  matrix before, and when the clamped spectra are distinct, the clamped \<open>S\<^sub>1\<close> is no
  row of it.
\<close>

theorem scrolling_evicts_oldest:
  assumes "w \<noteq> []" "\<forall>row \<in> set w. length row = n"
    and "length ts = length w" "\<forall>t \<in> set (t1 # ts). length (fst t) = n"
  shows "push_all w (t1 # ts) = (None, map clamped ts) \<and>
         map clamped ts ! 0 = clamped (ts ! 0) \<and>
         map clamped ts ! (length w - 1) = clamped (ts ! (length w - 1)) \<and>
         length (map clamped ts) = length w \<and>
         (distinct (map clamped (t1 # ts)) \<longrightarrow> clamped t1 \<notin> set (map clamped ts))"
proof -
  have "push_all w (t1 # ts) = (None, drop (length (t1 # ts)) (w @ map clamped (t1 # ts)))"
    using assms(1,2,4) by (rule push_all_rows)
  then have "push_all w (t1 # ts) = (None, map clamped ts)"
    using assms(3) by simp
  moreover have "0 < length ts"
    using assms(1,3) by simp
  ultimately show ?thesis
    using assms(3) by simp
qed

theorem scrolling_evicts_oldest_witness:
  "push_all [[- 120, - 120], [- 120, - 120]]
     [([1, 2], 0, 60), ([3, 70], 0, 60), ([- 5, 6], 0, 60)] = (None, [[3, 60], [0, 6]]) \<and>
   [1, 2] \<notin> set [[3, 60], [0, 6 :: real]]"
  using scrolling_evicts_oldest
    [of "[[- 120, - 120], [- 120, - 120]]" 2 "[([3, 70], 0, 60), ([- 5, 6], 0, 60)]"
        "([1, 2], 0, 60)"]
  by (simp add: clamped_def np_clip_def astype_float32_def float32_values)

subsection \<open>The percentile\<close>

lemma length_filter_sort:
  "length (filter P (sort xs)) = length (filter P (xs :: real list))"
proof (induction xs)
  case Nil
  then show ?case by simp
next
  case (Cons x xs)
  have "length (filter P (insort x (sort xs))) =
          (if P x then Suc (length (filter P (sort xs))) else length (filter P (sort xs)))"
    by (simp add: filter_insort filter_insort_triv)
  then show ?case
    using Cons.IH by simp
qed

lemma sorted_count_le:
  assumes "sorted xs" "k < length xs" "xs ! k \<le> (c::real)"
  shows "k + 1 \<le> length (filter (\<lambda>x. x \<le> c) xs)"
proof -
  have "\<forall>x \<in> set (take (k + 1) xs). x \<le> c"
  proof
    fix x assume "x \<in> set (take (k + 1) xs)"
    then obtain i where "i < k + 1" "i < length xs" "x = xs ! i"
      by (auto simp: in_set_conv_nth)
    then have "x \<le> xs ! k"
      using assms(1,2) by (simp add: sorted_nth_mono)
    then show "x \<le> c"
      using assms(3) by simp
  qed
  then have "filter (\<lambda>x. x \<le> c) (take (k + 1) xs) = take (k + 1) xs"
    by (simp add: filter_id_conv)
  moreover have "xs = take (k + 1) xs @ drop (k + 1) xs"
    by simp
  ultimately have "length (filter (\<lambda>x. x \<le> c) xs) \<ge> length (take (k + 1) xs)"
    by (metis filter_append length_append le_add1)
  then show ?thesis
    using assms(2) by simp
qed

lemma sorted_count_ge:
  assumes "sorted xs" "k < length xs" "(c::real) \<le> xs ! k"
  shows "length xs - k \<le> length (filter (\<lambda>x. c \<le> x) xs)"
proof -
  have "\<forall>x \<in> set (drop k xs). c \<le> x"
  proof
    fix x assume "x \<in> set (drop k xs)"
    then obtain i where "i < length xs - k" "x = xs ! (k + i)"
      by (auto simp: in_set_conv_nth)
    then have "xs ! k \<le> x"
      using assms(1,2) by (simp add: sorted_nth_mono)
    then show "c \<le> x"
      using assms(3) by simp
  qed
  then have "filter (\<lambda>x. c \<le> x) (drop k xs) = drop k xs"
    by (simp add: filter_id_conv)
  moreover have "xs = take k xs @ drop k xs"
    by simp
  ultimately have "length (filter (\<lambda>x. c \<le> x) xs) \<ge> length (drop k xs)"
    by (metis filter_append length_append le_add2)
  then show ?thesis
    by simp
qed

lemma np_percentile_rank:
  assumes "p \<noteq> []"
  defines "k \<equiv> nat \<lfloor>99 / 100 * (real (length p) - 1)\<rfloor>"
  shows "k < length p"
    and "sort p ! k \<le> np_percentile p 99"
    and "np_percentile p 99 \<le> sort p ! min (k + 1) (length p - 1)"
    and "k + 1 \<le> length (filter (\<lambda>x. x \<le> np_percentile p 99) p)"
    and "length p - min (k + 1) (length p - 1) \<le> length (filter (\<lambda>x. np_percentile p 99 \<le> x) p)"
proof -
  define xs where "xs = sort p"
  define n where "n = length p"
  define h where "h = 99 / 100 * (real n - 1)"
  define k' where "k' = min (k + 1) (n - 1)"
  define g where "g = h - real k"
  have n: "0 < n" "length xs = n"
    using assms(1) by (simp_all add: n_def xs_def)
  have kn: "k \<le> n - 1"
    unfolding k_def n_def [symmetric] using n(1) by (intro percentile_index_bound) auto
  then show klt: "k < length p"
    using n(1) unfolding n_def by linarith
  have h0: "0 \<le> h"
    using n(1) by (simp add: h_def)
  have kh: "k = nat \<lfloor>h\<rfloor>"
    by (simp add: k_def h_def n_def)
  have g: "0 \<le> g" "g < 1"
    using h0 unfolding g_def kh by linarith+
  have k': "k \<le> k'" "k' < n"
    using kn n(1) by (auto simp: k'_def)
  have srt: "sorted xs"
    by (simp add: xs_def)
  have le: "xs ! k \<le> xs ! k'"
    using srt k' n(2) by (simp add: sorted_nth_mono)
  have c: "np_percentile p 99 = xs ! k + (xs ! k' - xs ! k) * g"
    by (simp add: np_percentile_def Let_def xs_def k_def k'_def g_def h_def n_def)
  have lo: "xs ! k \<le> np_percentile p 99"
    using le g(1) by (simp add: c)
  have "(xs ! k' - xs ! k) * g \<le> (xs ! k' - xs ! k) * 1"
    using le g(2) by (intro mult_left_mono) auto
  then have hi: "np_percentile p 99 \<le> xs ! k'"
    by (simp add: c)
  show "sort p ! k \<le> np_percentile p 99"
    using lo by (simp add: xs_def)
  show "np_percentile p 99 \<le> sort p ! min (k + 1) (length p - 1)"
    using hi by (simp add: xs_def k'_def n_def)
  have "k + 1 \<le> length (filter (\<lambda>x. x \<le> np_percentile p 99) xs)"
    using srt klt lo n by (intro sorted_count_le) (simp_all add: n_def)
  then show "k + 1 \<le> length (filter (\<lambda>x. x \<le> np_percentile p 99) p)"
    by (simp add: xs_def length_filter_sort)
  have "length xs - k' \<le> length (filter (\<lambda>x. np_percentile p 99 \<le> x) xs)"
    using srt k'(2) hi n by (intro sorted_count_ge) simp_all
  then show "length p - min (k + 1) (length p - 1) \<le> length (filter (\<lambda>x. np_percentile p 99 \<le> x) p)"
    by (simp add: xs_def length_filter_sort k'_def n_def)
qed

subsection \<open>C5: the level estimator\<close>

text \<open>
  C5. For every spectrum \<open>p\<close>, lines 189 to 198 take \<^verbatim>\<open>np.percentile(p, 99)\<close> as the
  candidate. A smoothed ceiling that is still \<^verbatim>\<open>None\<close> becomes the candidate itself,
  a smoothed ceiling \<open>m\<close> becomes \<open>0.9 * m + 0.1 * candidate\<close>; the new value is stored and
  is the ceiling \<^verbatim>\<open>db_max\<close>, and the floor \<^verbatim>\<open>db_min\<close> is the ceiling minus
  \<^verbatim>\<open>dynamic_range_db\<close>. A tick that pushes \<open>p\<close> leaves exactly this ceiling in the
  object. The candidate is the 99th percentile in numpy's sense: with
  \<open>k = \<lfloor>0.99 * (n - 1)\<rfloor>\<close> it lies between the entries \<open>k\<close> and \<open>k + 1\<close> of the sorted
  spectrum, so at least \<open>k + 1\<close> of the \<open>n\<close> bins are not above it.
\<close>

theorem level_estimator_update:
  "fst (update_level s p) = s\<lparr>db_max_smooth := Some (snd (snd (update_level s p)))\<rparr> \<and>
   (db_max_smooth s = None \<longrightarrow> snd (snd (update_level s p)) = np_percentile p 99) \<and>
   (\<forall>m. db_max_smooth s = Some m \<longrightarrow>
      snd (snd (update_level s p)) = 0.9 * m + 0.1 * np_percentile p 99) \<and>
   fst (snd (update_level s p)) = snd (snd (update_level s p)) - dynamic_range_db s \<and>
   (\<not> closing s \<and> consistent s \<and> waterfall s \<noteq> [] \<and>
    power_spectrum (window s) (nfft s) block = Inr p \<longrightarrow>
      db_max_smooth (snd (update_once (Inr block) s)) = Some (snd (snd (update_level s p)))) \<and>
   (p \<noteq> [] \<longrightarrow>
      (let k = nat \<lfloor>99 / 100 * (real (length p) - 1)\<rfloor>
       in sort p ! k \<le> np_percentile p 99 \<and>
          np_percentile p 99 \<le> sort p ! min (k + 1) (length p - 1) \<and>
          k + 1 \<le> length (filter (\<lambda>x. x \<le> np_percentile p 99) p) \<and>
          length p - min (k + 1) (length p - 1)
            \<le> length (filter (\<lambda>x. np_percentile p 99 \<le> x) p)))"
proof -
  have "fst (update_level s p) = s\<lparr>db_max_smooth := Some (snd (snd (update_level s p)))\<rparr>"
    and "db_max_smooth s = None \<longrightarrow> snd (snd (update_level s p)) = np_percentile p 99"
    and "\<forall>m. db_max_smooth s = Some m \<longrightarrow>
           snd (snd (update_level s p)) = 0.9 * m + 0.1 * np_percentile p 99"
    and "fst (snd (update_level s p)) = snd (snd (update_level s p)) - dynamic_range_db s"
    by (simp_all add: update_level_def Let_def)
  moreover have "db_max_smooth (snd (update_once (Inr block) s)) =
      Some (snd (snd (update_level s p)))"
    if "\<not> closing s" "consistent s" "waterfall s \<noteq> []"
      "power_spectrum (window s) (nfft s) block = Inr p"
    using update_once_ok [OF that] by (simp add: update_level_def Let_def)
  ultimately show ?thesis
    using np_percentile_rank [of p] by (simp add: Let_def)
qed

theorem level_estimator_update_witness:
  "db_max_smooth init = None \<and>
   snd (snd (update_level init [3, 1, 2])) = 2.98 \<and>
   fst (snd (update_level init [3, 1, 2])) = 2.98 - 60 \<and>
   db_max_smooth (init\<lparr>db_max_smooth := Some 10\<rparr>) = Some 10 \<and>
   snd (snd (update_level (init\<lparr>db_max_smooth := Some 10\<rparr>) [3, 1, 2])) = 9.298"
proof -
  have "np_percentile [3, 1, 2] 99 = 2.98"
    by (simp add: np_percentile_def Let_def)
  then show ?thesis
    using level_estimator_update [of init "[3, 1, 2]"]
      level_estimator_update [of "init\<lparr>db_max_smooth := Some 10\<rparr>" "[3, 1, 2]"]
    by simp
qed

lemma float32_minus_300: "float32 (- 300) = - 300"
  by (subst float32_eval [of 8]; simp)

lemma astype_float32_clip_bounds:
  assumes "lo \<le> hi" "v \<in> set (astype_float32 (np_clip p lo hi))"
  shows "float32 lo \<le> v \<and> v \<le> float32 hi"
proof -
  obtain x where "x \<in> set p" "v = float32 (min (max x lo) hi)"
    using assms(2) by (auto simp: astype_float32_def np_clip_def)
  moreover have "lo \<le> min (max x lo) hi" "min (max x lo) hi \<le> hi"
    using assms(1) by auto
  ultimately show ?thesis
    using float32_mono by blast
qed

subsection \<open>C3: the pushed values\<close>

text \<open>
  C3, as stated, fails on the last step of line 200: the clipped row is converted to
  \<^verbatim>\<open>float32\<close>, and a bound that is no \<^verbatim>\<open>float32\<close> value is rounded across. In the
  object of \<^verbatim>\<open>__init__\<close> with a smoothed ceiling of -101.5 dB left by earlier ticks, the
  tick for the all-zero block has the ceiling -115.35 and the floor -175.35; every bin
  lies below the floor and is written as -11491738/65536, about -175.350006, which is
  less than the floor. In the same way a push with the ceiling 0.1 writes
  13421773/134217728, which is more than 0.1.
\<close>

theorem float32_rounding_counterexample:
  "power_spectrum (window (init\<lparr>db_max_smooth := Some (- 101.5)\<rparr>))
     (nfft (init\<lparr>db_max_smooth := Some (- 101.5)\<rparr>)) (replicate 2048 0) =
     Inr (replicate 2048 (- 240)) \<and>
   fst (snd (update_level (init\<lparr>db_max_smooth := Some (- 101.5)\<rparr>) (replicate 2048 (- 240)))) =
     - 175.35 \<and>
   fst (update_once (Inr (replicate 2048 0)) (init\<lparr>db_max_smooth := Some (- 101.5)\<rparr>)) = None \<and>
   last (waterfall (snd (update_once (Inr (replicate 2048 0))
                           (init\<lparr>db_max_smooth := Some (- 101.5)\<rparr>)))) =
     replicate 2048 (- 11491738 / 65536) \<and>
   - 11491738 / 65536 < (- 175.35 :: real) \<and>
   scroll_push [[- 120]] [5] (- 59.9) 0.1 = (None, [[13421773 / 134217728]]) \<and>
   (0.1 :: real) < 13421773 / 134217728"
proof -
  define s where "s = init\<lparr>db_max_smooth := Some (- 101.5)\<rparr>"
  have p: "power_spectrum (window s) (nfft s) (replicate 2048 0) = Inr (replicate 2048 (- 240))"
    using power_spectrum_zeros [of 2048 "astype_float32 (np_hanning 2048)"]
    by (simp add: s_def eps_db)
  have l: "fst (snd (update_level s (replicate 2048 (- 240)))) = - 175.35"
    "snd (snd (update_level s (replicate 2048 (- 240)))) = - 115.35"
    by (simp_all add: s_def update_level_def Let_def np_percentile_replicate)
  have c: "\<not> closing s" "consistent s" "waterfall s \<noteq> []"
    using consistent_init waterfall_init_ne by (simp_all add: s_def)
  have t: "update_once (Inr (replicate 2048 0)) s =
      (None, (fst (update_level s (replicate 2048 (- 240))))
          \<lparr>waterfall := tl (waterfall s) @ [replicate 2048 (- 11491738 / 65536)]\<rparr>)"
    using update_once_ok [OF c p] l float32_example_floor
    by (simp add: np_clip_replicate astype_float32_replicate)
  have push: "scroll_push [[- 120]] [5] (- 59.9) 0.1 = (None, [[13421773 / 134217728]])"
    using scroll_push_ok [of "[[- 120]]" "[5]" "- 59.9" "0.1"] float32_tenth
    by (simp add: np_clip_def astype_float32_def)
  show ?thesis
    using p l(1) t push unfolding s_def by simp
qed

text \<open>
  C3, amended. In every object that the program can hold, a tick whose transform
  produced the spectrum \<open>p\<close> raises nothing; with \<open>lo\<close> and \<open>hi\<close> the floor and the ceiling
  of this tick, the rows that were there move up by one and the new last row holds,
  for every value of \<open>p\<close>, the \<^verbatim>\<open>float32\<close> nearest to that value saturated into
  \<open>[lo, hi]\<close> (below \<open>lo\<close> it is \<open>lo\<close>, above \<open>hi\<close> it is \<open>hi\<close>, nothing is rescaled). So
  every value \<open>v\<close> that the push writes lies between the \<^verbatim>\<open>float32\<close> roundings of the
  floor and of the ceiling, and satisfies \<open>lo \<le> v \<le> hi\<close> whenever the two bounds are
  \<^verbatim>\<open>float32\<close> values themselves.
\<close>

theorem pushed_values_within_rounded_bounds:
  assumes "reachable s" "\<not> closing s" "power_spectrum (window s) (nfft s) block = Inr p"
    and "lo = fst (snd (update_level s p))" "hi = snd (snd (update_level s p))"
  shows "fst (update_once (Inr block) s) = None \<and>
         butlast (waterfall (snd (update_once (Inr block) s))) = tl (waterfall s) \<and>
         last (waterfall (snd (update_once (Inr block) s))) =
           map (\<lambda>v. float32 (if v < lo then lo else if hi < v then hi else v)) p \<and>
         (\<forall>v \<in> set (last (waterfall (snd (update_once (Inr block) s)))).
            float32 lo \<le> v \<and> v \<le> float32 hi) \<and>
         (float32 lo = lo \<and> float32 hi = hi \<longrightarrow>
            (\<forall>v \<in> set (last (waterfall (snd (update_once (Inr block) s)))). lo \<le> v \<and> v \<le> hi))"
proof -
  have inv: "consistent s" "waterfall_rows s = 300" "dynamic_range_db s = 60"
    using assms(1) reachable_invariant by blast+
  then have ne: "waterfall s \<noteq> []"
    by (auto simp: consistent_def)
  have le: "lo \<le> hi"
    using inv(3) assms(4,5) by (simp add: update_level_def Let_def)
  have "update_once (Inr block) s =
          (None, (fst (update_level s p))
             \<lparr>waterfall := tl (waterfall s) @ [astype_float32 (np_clip p lo hi)]\<rparr>)"
    using update_once_ok [OF assms(2) inv(1) ne assms(3)] assms(4,5) by simp
  moreover have "astype_float32 (np_clip p lo hi) =
      map (\<lambda>v. float32 (if v < lo then lo else if hi < v then hi else v)) p"
    by (simp add: np_clip_saturates [OF le] astype_float32_def)
  moreover have "\<forall>v \<in> set (astype_float32 (np_clip p lo hi)). float32 lo \<le> v \<and> v \<le> float32 hi"
    using astype_float32_clip_bounds [OF le] by blast
  ultimately show ?thesis
    by auto
qed

theorem pushed_values_within_rounded_bounds_witness:
  "reachable init \<and> \<not> closing init \<and>
   power_spectrum (window init) (nfft init) (replicate 2048 0) = Inr (replicate 2048 (- 240)) \<and>
   fst (snd (update_level init (replicate 2048 (- 240)))) = - 300 \<and>
   snd (snd (update_level init (replicate 2048 (- 240)))) = - 240 \<and>
   fst (update_once (Inr (replicate 2048 0)) init) = None \<and>
   last (waterfall (snd (update_once (Inr (replicate 2048 0)) init))) = replicate 2048 (- 240)"
proof -
  have p: "power_spectrum (window init) (nfft init) (replicate 2048 0) = Inr (replicate 2048 (- 240))"
    using power_spectrum_zeros [of 2048 "astype_float32 (np_hanning 2048)"] by (simp add: eps_db)
  have l: "fst (snd (update_level init (replicate 2048 (- 240)))) = - 300"
    "snd (snd (update_level init (replicate 2048 (- 240)))) = - 240"
    by (simp_all add: update_level_def Let_def np_percentile_replicate)
  show ?thesis
    using pushed_values_within_rounded_bounds [OF reach_init _ p refl refl] reach_init p l
    by (simp add: float32_values)
qed

lemma apply_settings_gain:
  "gain (sdr (snd (apply_settings py u s))) =
     (if str_lower py (py_strip (gain_input u)) = text_of ''auto'' then GainAuto
      else case py_float py (str_lower py (py_strip (gain_input u))) of
             Some g \<Rightarrow> GainDb g
           | None \<Rightarrow> gain (sdr s))"
  by (simp add: apply_settings_def Let_def set_gain_def set_nfft_def split: option.split)

lemma prepared_texts:
  "str_lower ascii_python (py_strip (text_of ''AUTO'')) = text_of ''auto''"
  "str_lower ascii_python (py_strip (160 # text_of ''auto'')) = text_of ''auto''"
  "str_lower ascii_python (py_strip (text_of ''35'')) = text_of ''35''"
  "str_lower ascii_python (py_strip (text_of ''12 dB'')) = text_of ''12 db''"
  "py_float ascii_python (text_of ''35'') = Some 35"
  "py_float ascii_python (text_of ''AUTO'') = None"
  "py_float ascii_python (160 # text_of ''auto'') = None"
  "py_float ascii_python (text_of ''12 db'') = None"
  "text_of ''35'' \<noteq> text_of ''auto''"
  "text_of ''AUTO'' \<noteq> text_of ''auto''"
  "160 # text_of ''auto'' \<noteq> text_of ''auto''"
  "text_of ''12 db'' \<noteq> text_of ''auto''"
  by (simp_all add: ascii_python_def ascii_lower_def py_strip_def is_space_def text_of_def
        float_digits_def)

subsection \<open>C9: a gain text that is no gain\<close>

text \<open>
  C9, as stated, fails: the text is compared with \<^verbatim>\<open>"auto"\<close> only after
  \<^verbatim>\<open>strip().lower()\<close>. The text \<^verbatim>\<open>AUTO\<close> is not the string \<^verbatim>\<open>auto\<close> and \<^verbatim>\<open>float\<close> rejects
  it, yet \<^verbatim>\<open>apply_settings\<close> on an object whose gain is 35 (set by the text \<^verbatim>\<open>35\<close>)
  sets the gain to \<^verbatim>\<open>"auto"\<close> instead of keeping 35. The text made of a no-break space
  (U+00A0) and \<^verbatim>\<open>auto\<close> does the same.
\<close>

theorem upper_case_auto_counterexample:
  "text_of ''AUTO'' \<noteq> text_of ''auto'' \<and>
   py_float ascii_python (text_of ''AUTO'') = None \<and>
   gain (sdr (snd (apply_settings ascii_python (ui_example\<lparr>gain_input := text_of ''35''\<rparr>) init))) =
     GainDb 35 \<and>
   gain (sdr (snd (apply_settings ascii_python (ui_example\<lparr>gain_input := text_of ''AUTO''\<rparr>)
     (snd (apply_settings ascii_python (ui_example\<lparr>gain_input := text_of ''35''\<rparr>) init))))) =
     GainAuto \<and>
   160 # text_of ''auto'' \<noteq> text_of ''auto'' \<and>
   py_float ascii_python (160 # text_of ''auto'') = None \<and>
   gain (sdr (snd (apply_settings ascii_python (ui_example\<lparr>gain_input := 160 # text_of ''auto''\<rparr>)
     (snd (apply_settings ascii_python (ui_example\<lparr>gain_input := text_of ''35''\<rparr>) init))))) =
     GainAuto"
  by (simp add: apply_settings_gain prepared_texts)

text \<open>
  C9, amended. Let the prepared text be the gain text after \<^verbatim>\<open>strip().lower()\<close>. When
  the prepared text is not \<^verbatim>\<open>auto\<close> and \<^verbatim>\<open>float\<close> rejects it, \<^verbatim>\<open>apply_settings\<close> (with
  the spin boxes inside their ranges) raises nothing, the device keeps the gain it had,
  and everything else is applied: centre frequency, sample rate, FFT size, frame rate
  with the timer, and the frequency axis for the new values.
\<close>

theorem invalid_gain_text_is_ignored:
  assumes "ui_in_range u"
    and "str_lower py (py_strip (gain_input u)) \<noteq> text_of ''auto''"
    and "py_float py (str_lower py (py_strip (gain_input u))) = None"
  shows "fst (apply_settings py u s) = None \<and>
         gain (sdr (snd (apply_settings py u s))) = gain (sdr s) \<and>
         center_freq (sdr (snd (apply_settings py u s))) = freq_input u * 10 ^ 6 \<and>
         sample_rate (sdr (snd (apply_settings py u s))) = sr_input u * 10 ^ 6 \<and>
         nfft (snd (apply_settings py u s)) = fft_value (fft_input u) \<and>
         fps (snd (apply_settings py u s)) = fps_input u \<and>
         timer_interval (snd (apply_settings py u s)) =
           Some (py_int (1000 / real_of_int (fps_input u))) \<and>
         freqs_mhz (snd (apply_settings py u s)) =
           map (\<lambda>i. ((real i - real (fft_value (fft_input u) div 2))
                        * (sr_input u * 10 ^ 6 / real (fft_value (fft_input u)))
                      + freq_input u * 10 ^ 6) / 10 ^ 6) [0..<fft_value (fft_input u)]"
  using assms apply_settings_ok [of u py s] apply_settings_gain_kept [of py u s]
  by simp

theorem invalid_gain_text_is_ignored_witness:
  "ui_in_range ui_example \<and>
   str_lower ascii_python (py_strip (gain_input ui_example)) = text_of ''12 db'' \<and>
   text_of ''12 db'' \<noteq> text_of ''auto'' \<and>
   py_float ascii_python (text_of ''12 db'') = None \<and>
   fst (apply_settings ascii_python ui_example init) = None \<and>
   gain (sdr (snd (apply_settings ascii_python ui_example init))) = GainAuto \<and>
   center_freq (sdr (snd (apply_settings ascii_python ui_example init))) = 100000000 \<and>
   fps (snd (apply_settings ascii_python ui_example init)) = 20 \<and>
   timer_interval (snd (apply_settings ascii_python ui_example init)) = Some 50"
proof -
  have r: "ui_in_range ui_example"
    by (simp add: ui_in_range_def ui_example_def)
  have t: "str_lower ascii_python (py_strip (gain_input ui_example)) = text_of ''12 db''"
    by (simp add: ui_example_def prepared_texts)
  have g: "gain (sdr init) = GainAuto"
    by (simp add: init_def init_fields_def)
  show ?thesis
    using invalid_gain_text_is_ignored [of ui_example ascii_python init] r t g
    by (simp add: ui_example_def py_int_def prepared_texts)
qed

end
